theory Spec2Isabelle
  imports Complex_Main
begin

section \<open>Python strings\<close>

text \<open>
  A Python \<open>str\<close> is a sequence of Unicode code points, so it is modelled as a list of
  natural numbers; \<open>py\<close> turns an ASCII literal into such a list.  \<open>isspace\<close> is the set of
  code points that \<open>str.strip()\<close> removes.
\<close>

type_synonym str = "nat list"

definition py :: "string \<Rightarrow> str" where
  "py s = map of_char s"

definition isspace :: "nat \<Rightarrow> bool" where
  "isspace c \<longleftrightarrow>
     (0x09 \<le> c \<and> c \<le> 0x0D) \<or> (0x1C \<le> c \<and> c \<le> 0x20) \<or> c = 0x85 \<or> c = 0xA0 \<or>
     c = 0x1680 \<or> (0x2000 \<le> c \<and> c \<le> 0x200A) \<or> c = 0x2028 \<or> c = 0x2029 \<or>
     c = 0x202F \<or> c = 0x205F \<or> c = 0x3000"

definition strip :: "str \<Rightarrow> str" where
  "strip s = rev (dropWhile isspace (rev (dropWhile isspace s)))"

text \<open>\<open>rfind sep text\<close> is the index of the last occurrence of \<open>sep\<close> in \<open>text\<close>.\<close>

fun rfind :: "str \<Rightarrow> str \<Rightarrow> nat option" where
  "rfind sep [] = (if sep = [] then Some 0 else None)"
| "rfind sep (c # cs) =
     (case rfind sep cs of
        Some i \<Rightarrow> Some (Suc i)
      | None \<Rightarrow> if take (length sep) (c # cs) = sep then Some 0 else None)"

text \<open>\<open>sep in text\<close>\<close>

definition contains :: "str \<Rightarrow> str \<Rightarrow> bool" where
  "contains sep text \<longleftrightarrow> rfind sep text \<noteq> None"

text \<open>\<open>text.rsplit(sep, 1)\<close>: at most one split, at the last occurrence of \<open>sep\<close>.\<close>

definition rsplit1 :: "str \<Rightarrow> str \<Rightarrow> str list" where
  "rsplit1 sep text =
     (case rfind sep text of
        None \<Rightarrow> [text]
      | Some i \<Rightarrow> [take i text, drop (i + length sep) text])"

text \<open>\<open>str(n)\<close> for an integer, as an f-string prints it.\<close>

fun digits :: "nat \<Rightarrow> str" where
  "digits n = (if n < 10 then [48 + n] else digits (n div 10) @ [48 + n mod 10])"

declare digits.simps [simp del]

definition str_int :: "int \<Rightarrow> str" where
  "str_int i = (if i < 0 then 45 # digits (nat (- i)) else digits (nat i))"

text \<open>\<open>sep.join(parts)\<close>\<close>

fun join :: "str \<Rightarrow> str list \<Rightarrow> str" where
  "join sep [] = []"
| "join sep [x] = x"
| "join sep (x # y # ys) = x @ sep @ join sep (y # ys)"

text \<open>A string with no white space at either end.\<close>

definition trimmed :: "str \<Rightarrow> bool" where
  "trimmed s \<longleftrightarrow> s = [] \<or> (\<not> isspace (hd s) \<and> \<not> isspace (last s))"


section \<open>agents.py: the reply of a model and its normalisation\<close>

definition summary_marker :: str where
  "summary_marker = py ''Summary:''"

definition split_summary :: "str \<Rightarrow> str \<times> str" where
  "split_summary text =
     (if contains summary_marker text
      then (let parts = rsplit1 summary_marker text
            in (strip (parts ! 0), strip (parts ! 1)))
      else (strip text, []))"

text \<open>
  Exceptions are values.  \<open>IndexError\<close> is the one exception the workflow itself can raise;
  every failure of a collaborator (the model provider, the event callback) is a \<open>Failure\<close>
  carrying its message.
\<close>

datatype exn = IndexError | Failure str

datatype message = SystemMessage str | HumanMessage str

text \<open>
  The reply of the chat model: its text and, when the provider reports one, the usage
  dictionary (\<open>None\<close> when the attribute is missing or \<open>None\<close>).
\<close>

record ai_message =
  ai_content :: str
  usage_metadata :: "(str \<times> int) list option"

text \<open>\<open>usage.get(key, 0)\<close>\<close>

definition usage_get :: "(str \<times> int) list \<Rightarrow> str \<Rightarrow> int" where
  "usage_get usage k = (case map_of usage k of Some v \<Rightarrow> v | None \<Rightarrow> 0)"

datatype meta_value =
    Text str
  | Flag bool
  | Number int
  | TokenUsage (input_tokens: int) (output_tokens: int) (total_tokens: int)

record agent_response =
  content :: str
  agent_id :: str
  agent_type :: str
  metadata :: "str \<rightharpoonup> meta_value"

record chat_openai =
  model_name :: str
  llm_temperature :: real

record base_agent =
  self_agent_id :: str
  self_agent_type :: str
  self_llm :: chat_openai

text \<open>\<open>BaseAgent.__init__\<close>; the class name is what \<open>self.__class__.__name__\<close> reads.\<close>

definition BaseAgent_init :: "str \<Rightarrow> str \<Rightarrow> str \<Rightarrow> real \<Rightarrow> base_agent" where
  "BaseAgent_init class_name agent_id' model_name' temperature' =
     \<lparr>self_agent_id = agent_id',
      self_agent_type = class_name,
      self_llm = \<lparr>model_name = model_name', llm_temperature = temperature'\<rparr>\<rparr>"

text \<open>
  Every \<open>async def\<close> of an agent awaits the model exactly once.  Such a coroutine is the
  agent whose client is called, the messages sent, and what is done with the reply.  An
  exception of the call passes through unchanged, since no agent method catches anything.
\<close>

record 'a coroutine =
  caller :: base_agent
  prompt :: "message list"
  resume :: "ai_message \<Rightarrow> 'a"

definition generate_response :: "base_agent \<Rightarrow> message list \<Rightarrow> agent_response coroutine" where
  "generate_response self messages =
     \<lparr>caller = self,
      prompt = messages,
      resume = (\<lambda>response.
        let (text, summary) = split_summary (ai_content response);
            metadata0 = Map.empty;
            metadata1 = (if summary \<noteq> [] then metadata0(py ''summary'' \<mapsto> Text summary)
                         else metadata0);
            metadata2 =
              (case usage_metadata response of
                 None \<Rightarrow> metadata1
               | Some usage \<Rightarrow>
                   if usage \<noteq> []
                   then metadata1(py ''token_usage'' \<mapsto>
                          TokenUsage (usage_get usage (py ''input_tokens''))
                                     (usage_get usage (py ''output_tokens''))
                                     (usage_get usage (py ''total_tokens'')))
                   else metadata1)
        in \<lparr>content = text,
            agent_id = self_agent_id self,
            agent_type = self_agent_type self,
            metadata = metadata2\<rparr>)\<rparr>"

text \<open>The statements of a role operation that follow its \<open>await self.generate_response\<close>.\<close>

definition and_then :: "'a coroutine \<Rightarrow> ('a \<Rightarrow> 'b) \<Rightarrow> 'b coroutine" where
  "and_then c f = \<lparr>caller = caller c, prompt = prompt c, resume = (\<lambda>r. f (resume c r))\<rparr>"


subsection \<open>DraftAgent\<close>

definition DraftAgent_init :: "str \<Rightarrow> real \<Rightarrow> base_agent" where
  "DraftAgent_init model_name' temperature' =
     BaseAgent_init (py ''DraftAgent'') (py ''draft_agent'') model_name' temperature'"

definition draft_system_prompt :: str where
  "draft_system_prompt = py ''You are a draft agent responsible for creating comprehensive,\<newline>            well-structured responses to user queries. Focus on clarity, accuracy, and completeness.\<newline>            Finish your reply with a single sentence summary prefixed with 'Summary:'.''"

definition DraftAgent_create_initial_draft :: "base_agent \<Rightarrow> str \<Rightarrow> agent_response coroutine" where
  "DraftAgent_create_initial_draft self user_query' =
     (let messages = [SystemMessage draft_system_prompt, HumanMessage user_query']
      in generate_response self messages)"

definition revise_system_prompt :: str where
  "revise_system_prompt = py ''You are a draft agent. Your task is to improve your draft\<newline>            based on the feedback provided by the council members. Incorporate valid suggestions\<newline>            while maintaining the overall coherence of your response.\<newline>            Finish with a single sentence summary prefixed with 'Summary:'.''"

text \<open>\<open>[f"Feedback {i+1}: {fb}" for i, fb in enumerate(feedback)]\<close>\<close>

definition numbered_feedback :: "str list \<Rightarrow> str list" where
  "numbered_feedback feedback' =
     map (\<lambda>(i, fb). py ''Feedback '' @ str_int (int i + 1) @ py '': '' @ fb)
         (enumerate 0 feedback')"

definition DraftAgent_update_draft :: "base_agent \<Rightarrow> str \<Rightarrow> str list \<Rightarrow> agent_response coroutine" where
  "DraftAgent_update_draft self current_draft' feedback' =
     (let feedback_text = join (py ''\<newline>\<newline>'') (numbered_feedback feedback');
          messages =
            [SystemMessage revise_system_prompt,
             HumanMessage (py ''Current Draft:\<newline>'' @ current_draft'
               @ py ''\<newline>\<newline>Council Feedback:\<newline>'' @ feedback_text
               @ py ''\<newline>\<newline>Please provide an updated draft that addresses the feedback while maintaining quality and coherence.'')]
      in and_then (generate_response self messages)
           (\<lambda>response. response\<lparr>metadata := (metadata response)(py ''revision'' \<mapsto> Flag True)\<rparr>))"


subsection \<open>CouncilMember\<close>

record council_member =
  base :: base_agent
  member_id :: nat
  perspective :: str

text \<open>An absent or empty \<open>perspective\<close> falls back to the default label.\<close>

definition CouncilMember_init :: "nat \<Rightarrow> str \<Rightarrow> real \<Rightarrow> str option \<Rightarrow> council_member" where
  "CouncilMember_init member_id' model_name' temperature' perspective' =
     \<lparr>base = BaseAgent_init (py ''CouncilMember'')
               (py ''council_member_'' @ str_int (int member_id')) model_name' temperature',
      member_id = member_id',
      perspective =
        (case perspective' of
           Some p \<Rightarrow> if p \<noteq> [] then p else py ''Critical Reviewer '' @ str_int (int member_id')
         | None \<Rightarrow> py ''Critical Reviewer '' @ str_int (int member_id'))\<rparr>"

definition provide_feedback :: "council_member \<Rightarrow> str \<Rightarrow> str \<Rightarrow> int \<Rightarrow> agent_response coroutine" where
  "provide_feedback self user_query' current_draft' round_number =
     (let messages =
            [SystemMessage (py ''You are '' @ perspective self
               @ py ''. Your role is to critically evaluate\<newline>            the draft response and provide constructive feedback. Focus on:\<newline>            - Accuracy and factual correctness\<newline>            - Completeness and coverage of the topic\<newline>            - Clarity and organization\<newline>            - Potential improvements or missing elements\<newline>\<newline>            This is round ''
               @ str_int round_number
               @ py '' of the review process.\<newline>            End with a one sentence summary prefixed with 'Summary:'.''),
             HumanMessage (py ''User Query: '' @ user_query'
               @ py ''\<newline>\<newline>Current Draft:\<newline>'' @ current_draft'
               @ py ''\<newline>\<newline>Please provide specific, actionable feedback to improve this response.\<newline>Finish with a one sentence summary prefixed with 'Summary:'.'')]
      in and_then (generate_response (base self) messages)
           (\<lambda>response. response\<lparr>metadata := (metadata response)(py ''round'' \<mapsto> Number round_number)\<rparr>))"


subsection \<open>EditorAgent\<close>

definition EditorAgent_init :: "str \<Rightarrow> real \<Rightarrow> base_agent" where
  "EditorAgent_init model_name' temperature' =
     BaseAgent_init (py ''EditorAgent'') (py ''editor_agent'') model_name' temperature'"

definition editor_system_prompt :: str where
  "editor_system_prompt = py ''You are an expert editor. Your task is to take the final draft\<newline>            and ensure it is polished, coherent, and well-formatted. Make minor adjustments for:\<newline>            - Grammar and style consistency\<newline>            - Logical flow and transitions\<newline>            - Formatting and presentation\<newline>            - Overall coherence\<newline>\<newline>            Do not make major content changes unless absolutely necessary for accuracy.\<newline>            Provide a one sentence summary of your edits prefixed with 'Summary:'.''"

text \<open>One entry of a round of feedback: the dictionary \<open>{"agent_id": _, "feedback": _}\<close>.\<close>

record feedback =
  fb_agent_id :: str
  fb_feedback :: str

definition edit_final_response ::
  "base_agent \<Rightarrow> str \<Rightarrow> str \<Rightarrow> feedback list list \<Rightarrow> agent_response coroutine" where
  "edit_final_response self user_query' final_draft debate_history =
     (let messages =
            [SystemMessage editor_system_prompt,
             HumanMessage (py ''User Query: '' @ user_query'
               @ py ''\<newline>\<newline>Final Draft:\<newline>'' @ final_draft
               @ py ''\<newline>\<newline>Please provide the polished, final version of this response.'')]
      in and_then (generate_response self messages)
           (\<lambda>response. response\<lparr>metadata := (metadata response)(py ''final'' \<mapsto> Flag True)\<rparr>))"


section \<open>config_manager.py\<close>

record agent_config =
  model :: str
  temperature :: real

record council_config =
  openai_api_key :: str
  draft_agent :: agent_config
  council_members :: "agent_config list"
  editor_agent :: agent_config
  debate_rounds :: int


section \<open>workflow.py: state, events and effects\<close>

text \<open>
  What an event carries: a status line, the result of an agent, or the dictionary
  \<open>{"round": _, "feedback": _}\<close> of a finished round.
\<close>

datatype payload = Message str | Response agent_response | Round int "feedback list"

text \<open>
  The event callback is called as \<open>await ui_callback(event_type, data)\<close>.  It either returns
  (\<open>None\<close>) or raises.  It is taken to read its argument only, as the repository's own
  callback \<open>handle_workflow_event\<close> does.
\<close>

type_synonym callback = "str \<Rightarrow> payload \<Rightarrow> exn option"

record council_state =
  user_query :: str
  current_draft :: str
  drafts :: "str list"
  feedback_history :: "feedback list list"
  current_round :: int
  max_rounds :: int
  final_response :: str
  ui_callback :: "callback option"

text \<open>
  A node returns a dictionary with some of the keys of the state.  The graph merges it into
  the state: \<open>drafts\<close> and \<open>feedback_history\<close> are declared with the reducer \<open>operator.add\<close>
  and are appended to, every other key is overwritten.
\<close>

record council_update =
  u_current_draft :: "str option"
  u_drafts :: "str list option"
  u_feedback_history :: "feedback list list option"
  u_current_round :: "int option"
  u_final_response :: "str option"

definition no_update :: council_update where
  "no_update = \<lparr>u_current_draft = None, u_drafts = None, u_feedback_history = None,
                 u_current_round = None, u_final_response = None\<rparr>"

definition apply_update :: "council_state \<Rightarrow> council_update \<Rightarrow> council_state" where
  "apply_update state u =
     state\<lparr>current_draft := (case u_current_draft u of Some d \<Rightarrow> d | None \<Rightarrow> current_draft state),
           drafts := (case u_drafts u of Some ds \<Rightarrow> drafts state @ ds | None \<Rightarrow> drafts state),
           feedback_history :=
             (case u_feedback_history u of
                Some h \<Rightarrow> feedback_history state @ h
              | None \<Rightarrow> feedback_history state),
           current_round := (case u_current_round u of Some r \<Rightarrow> r | None \<Rightarrow> current_round state),
           final_response :=
             (case u_final_response u of Some r \<Rightarrow> r | None \<Rightarrow> final_response state)\<rparr>"

datatype node = START | Create_draft | Council_debate | Update_draft | Final_edit | END

text \<open>
  The log of a run, in the order things happen: a notification delivered to the callback, one
  awaited model call, one concurrent fan-out of model calls (in the order the calls are
  started), and the state the graph holds once a node has finished and its result is merged.
\<close>

datatype effect =
    Notified str payload
  | Invoked base_agent "message list"
  | Gathered "(base_agent \<times> message list) list"
  | Checkpoint node council_state

fun is_call :: "effect \<Rightarrow> bool" where
  "is_call (Invoked a ms) = True"
| "is_call (Gathered calls) = True"
| "is_call e = False"

text \<open>The number of model calls and fan-outs made so far: the time the next one is made at.\<close>

definition clock :: "effect list \<Rightarrow> nat" where
  "clock lg = length (filter is_call lg)"

text \<open>
  The model provider, outside the repository: what a call made at a given time by a given
  agent with given messages returns or raises, and how long the reply of that agent takes.
\<close>

record env =
  ainvoke :: "nat \<Rightarrow> base_agent \<Rightarrow> message list \<Rightarrow> exn + ai_message"
  latency :: "nat \<Rightarrow> base_agent \<Rightarrow> nat"

text \<open>A computation that extends the log and returns a value or raises.\<close>

type_synonym 'a io = "effect list \<Rightarrow> (exn + 'a) \<times> effect list"

definition io_return :: "'a \<Rightarrow> 'a io" where
  "io_return x = (\<lambda>lg. (Inr x, lg))"

definition io_raise :: "exn \<Rightarrow> 'a io" where
  "io_raise e = (\<lambda>lg. (Inl e, lg))"

definition io_bind :: "'a io \<Rightarrow> ('a \<Rightarrow> 'b io) \<Rightarrow> 'b io" where
  "io_bind m k = (\<lambda>lg. case m lg of (Inl e, lg') \<Rightarrow> (Inl e, lg') | (Inr x, lg') \<Rightarrow> k x lg')"

text \<open>\<open>await\<close> of one coroutine.\<close>

definition await :: "env \<Rightarrow> 'a coroutine \<Rightarrow> 'a io" where
  "await env c = (\<lambda>lg.
     (case ainvoke env (clock lg) (caller c) (prompt c) of
        Inl e \<Rightarrow> Inl e
      | Inr response \<Rightarrow> Inr (resume c response),
      lg @ [Invoked (caller c) (prompt c)]))"

text \<open>
  \<open>await asyncio.gather(*aws)\<close>.  All coroutines are started; their replies arrive in the
  order of their latencies.  Each result is stored at the position of its coroutine; the
  first exception to arrive is raised at once.  When every reply has arrived the stored
  results are returned.
\<close>

definition completion_order :: "nat list \<Rightarrow> nat list" where
  "completion_order lat = sort_key (\<lambda>i. lat ! i) [0..<length lat]"

fun deliver :: "(exn + 'a) list \<Rightarrow> nat list \<Rightarrow> 'a option list \<Rightarrow> exn + 'a option list" where
  "deliver outcomes [] slots = Inr slots"
| "deliver outcomes (i # order) slots =
     (case outcomes ! i of
        Inl e \<Rightarrow> Inl e
      | Inr x \<Rightarrow> deliver outcomes order (slots[i := Some x]))"

definition gather :: "env \<Rightarrow> 'a coroutine list \<Rightarrow> 'a list io" where
  "gather env aws = (\<lambda>lg.
     let t = clock lg;
         outcomes = map (\<lambda>c. map_sum id (resume c) (ainvoke env t (caller c) (prompt c))) aws;
         order = completion_order (map (\<lambda>c. latency env t (caller c)) aws)
     in (case deliver outcomes order (replicate (length aws) None) of
           Inl e \<Rightarrow> Inl e
         | Inr slots \<Rightarrow> Inr (map the slots),
         lg @ [Gathered (map (\<lambda>c. (caller c, prompt c)) aws)]))"

text \<open>\<open>if self.ui_callback: await self.ui_callback(event_type, data)\<close>\<close>

definition notify :: "callback option \<Rightarrow> str \<Rightarrow> payload \<Rightarrow> unit io" where
  "notify cb event_type data =
     (case cb of
        None \<Rightarrow> io_return ()
      | Some f \<Rightarrow> (\<lambda>lg.
          (case f event_type data of Some e \<Rightarrow> Inl e | None \<Rightarrow> Inr (),
           lg @ [Notified event_type data])))"


section \<open>workflow.py: CouncilWorkflow\<close>

record workflow =
  self_config :: council_config
  self_ui_callback :: "callback option"
  self_draft_agent :: base_agent
  self_council_members :: "council_member list"
  self_editor_agent :: base_agent

definition CouncilWorkflow_init :: "council_config \<Rightarrow> callback option \<Rightarrow> workflow" where
  "CouncilWorkflow_init config ui_callback' =
     \<lparr>self_config = config,
      self_ui_callback = ui_callback',
      self_draft_agent =
        DraftAgent_init (model (draft_agent config)) (temperature (draft_agent config)),
      self_council_members =
        map (\<lambda>(i, agent_config).
               CouncilMember_init i (model agent_config) (temperature agent_config)
                 (Some (py ''Council Member '' @ str_int (int i + 1))))
            (enumerate 0 (council_members config)),
      self_editor_agent =
        EditorAgent_init (model (editor_agent config)) (temperature (editor_agent config))\<rparr>"

definition create_initial_draft :: "workflow \<Rightarrow> env \<Rightarrow> council_state \<Rightarrow> council_update io" where
  "create_initial_draft self env state =
     io_bind (notify (self_ui_callback self) (py ''status'')
                (Message (py ''Creating initial draft...''))) (\<lambda>_.
     io_bind (await env (DraftAgent_create_initial_draft (self_draft_agent self)
                (user_query state))) (\<lambda>response.
     io_bind (notify (self_ui_callback self) (py ''draft_created'') (Response response)) (\<lambda>_.
     io_return (no_update\<lparr>u_current_draft := Some (content response),
                           u_drafts := Some [content response],
                           u_current_round := Some 0\<rparr>))))"

definition council_debate :: "workflow \<Rightarrow> env \<Rightarrow> council_state \<Rightarrow> council_update io" where
  "council_debate self env state =
     (let current_round' = current_round state + 1 in
      io_bind (notify (self_ui_callback self) (py ''status'')
                 (Message (py ''Council debate round '' @ str_int current_round' @ py ''...'')))
        (\<lambda>_.
      let feedback_tasks =
            map (\<lambda>member. provide_feedback member (user_query state) (current_draft state)
                             current_round')
                (self_council_members self) in
      io_bind (gather env feedback_tasks) (\<lambda>feedback_responses.
      let round_feedback =
            map (\<lambda>response. \<lparr>fb_agent_id = agent_id response, fb_feedback = content response\<rparr>)
                feedback_responses in
      io_bind (notify (self_ui_callback self) (py ''feedback_round'')
                 (Round current_round' round_feedback)) (\<lambda>_.
      io_return (no_update\<lparr>u_current_round := Some current_round',
                            u_feedback_history := Some [round_feedback]\<rparr>)))))"

text \<open>\<open>state["feedback_history"][-1]\<close> raises \<open>IndexError\<close> on an empty history.\<close>

definition update_draft :: "workflow \<Rightarrow> env \<Rightarrow> council_state \<Rightarrow> council_update io" where
  "update_draft self env state =
     io_bind (notify (self_ui_callback self) (py ''status'')
                (Message (py ''Updating draft based on feedback...''))) (\<lambda>_.
     io_bind (if feedback_history state = [] then io_raise IndexError
              else io_return (last (feedback_history state))) (\<lambda>latest_feedback.
     let feedback_texts = map fb_feedback latest_feedback in
     io_bind (await env (DraftAgent_update_draft (self_draft_agent self)
                (current_draft state) feedback_texts)) (\<lambda>response.
     io_bind (notify (self_ui_callback self) (py ''draft_updated'') (Response response)) (\<lambda>_.
     io_return (no_update\<lparr>u_current_draft := Some (content response),
                           u_drafts := Some [content response]\<rparr>)))))"

definition final_edit :: "workflow \<Rightarrow> env \<Rightarrow> council_state \<Rightarrow> council_update io" where
  "final_edit self env state =
     io_bind (notify (self_ui_callback self) (py ''status'')
                (Message (py ''Performing final edit...''))) (\<lambda>_.
     io_bind (await env (edit_final_response (self_editor_agent self)
                (user_query state) (current_draft state) (feedback_history state))) (\<lambda>response.
     io_bind (notify (self_ui_callback self) (py ''final_response'') (Response response)) (\<lambda>_.
     io_return (no_update\<lparr>u_final_response := Some (content response)\<rparr>))))"

definition should_continue_debate :: "council_state \<Rightarrow> str" where
  "should_continue_debate state =
     (if current_round state \<ge> max_rounds state then py ''end'' else py ''continue'')"

text \<open>
  The graph of \<open>_build_workflow\<close>: the function of each node, and for each node the node
  that runs after it.  The conditional edge after the debate maps \<open>"continue"\<close> to the
  update and \<open>"end"\<close> to the final edit.
\<close>

definition node_action :: "workflow \<Rightarrow> env \<Rightarrow> node \<Rightarrow> council_state \<Rightarrow> council_update io" where
  "node_action self env n =
     (case n of
        Create_draft \<Rightarrow> create_initial_draft self env
      | Council_debate \<Rightarrow> council_debate self env
      | Update_draft \<Rightarrow> update_draft self env
      | Final_edit \<Rightarrow> final_edit self env
      | _ \<Rightarrow> (\<lambda>state. io_return no_update))"

definition next_node :: "node \<Rightarrow> council_state \<Rightarrow> node" where
  "next_node n state =
     (case n of
        START \<Rightarrow> Create_draft
      | Create_draft \<Rightarrow> Council_debate
      | Council_debate \<Rightarrow>
          (if should_continue_debate state = py ''continue'' then Update_draft else Final_edit)
      | Update_draft \<Rightarrow> Council_debate
      | Final_edit \<Rightarrow> END
      | END \<Rightarrow> END)"

text \<open>
  What remains to be done from a node, as a number: in a state with \<open>current_round < max_rounds\<close>
  each further debate uses up one round.
\<close>

definition remaining :: "node \<Rightarrow> council_state \<Rightarrow> nat" where
  "remaining n state =
     (case n of
        START \<Rightarrow> 2 * nat (max_rounds state) + 6
      | Create_draft \<Rightarrow> 2 * nat (max_rounds state) + 5
      | Update_draft \<Rightarrow> 2 * nat (max_rounds state - current_round state) + 4
      | Council_debate \<Rightarrow> 2 * nat (max_rounds state - current_round state) + 3
      | Final_edit \<Rightarrow> 1
      | END \<Rightarrow> 0)"

text \<open>
  Running the compiled graph from a node: the node's function is run on the state, its
  result is merged into the state, and the run goes on at the next node until \<open>END\<close>.  An
  exception of a node ends the run.  The graph library's own limit on the number of steps
  is not set by the repository and is not part of the model.
\<close>

function exec :: "workflow \<Rightarrow> env \<Rightarrow> node \<Rightarrow> council_state \<Rightarrow> council_state io" where
  "exec self env n state lg =
     (if n = END then (Inr state, lg)
      else (case node_action self env n state lg of
              (Inl e, lg') \<Rightarrow> (Inl e, lg')
            | (Inr u, lg') \<Rightarrow>
                (let state' = apply_update state u
                 in exec self env (next_node n state') state' (lg' @ [Checkpoint n state']))))"
  by pat_completeness auto
termination
proof (relation "measure (\<lambda>(self, env, n, state, lg). remaining n state)", goal_cases)
  case 1
  show ?case by simp
next
  case (2 self env n state lg x u lg' state')
  show ?case
  proof (cases n)
    case START
    with 2 show ?thesis
      by (auto simp: node_action_def io_return_def no_update_def apply_update_def
            remaining_def next_node_def)
  next
    case Create_draft
    with 2 show ?thesis
      by (auto simp: node_action_def create_initial_draft_def io_bind_def io_return_def
            notify_def await_def no_update_def apply_update_def remaining_def next_node_def
          split: prod.splits sum.splits option.splits)
  next
    case Council_debate
    with 2 show ?thesis
      by (auto simp: node_action_def council_debate_def io_bind_def io_return_def notify_def
            gather_def Let_def no_update_def apply_update_def remaining_def next_node_def
            should_continue_debate_def py_def
          split: prod.splits sum.splits option.splits if_splits)
  next
    case Update_draft
    with 2 show ?thesis
      by (auto simp: node_action_def update_draft_def io_bind_def io_return_def io_raise_def
            notify_def await_def Let_def no_update_def apply_update_def remaining_def
            next_node_def
          split: prod.splits sum.splits option.splits if_splits)
  next
    case Final_edit
    with 2 show ?thesis
      by (auto simp: node_action_def final_edit_def io_bind_def io_return_def notify_def
            await_def no_update_def apply_update_def remaining_def next_node_def
          split: prod.splits sum.splits option.splits)
  next
    case END
    with 2 show ?thesis by simp
  qed
qed

declare exec.simps [simp del]

definition initial_state :: "workflow \<Rightarrow> str \<Rightarrow> council_state" where
  "initial_state self user_query' =
     \<lparr>user_query = user_query',
      current_draft = [],
      drafts = [],
      feedback_history = [],
      current_round = 0,
      max_rounds = debate_rounds (self_config self),
      final_response = [],
      ui_callback = self_ui_callback self\<rparr>"

text \<open>\<open>self.workflow.ainvoke(initial_state)\<close>: the graph is entered at the node after \<open>START\<close>.\<close>

definition workflow_ainvoke :: "workflow \<Rightarrow> env \<Rightarrow> council_state \<Rightarrow> council_state io" where
  "workflow_ainvoke self env state = exec self env (next_node START state) state"

definition run :: "workflow \<Rightarrow> env \<Rightarrow> str \<Rightarrow> str io" where
  "run self env user_query' =
     io_bind (workflow_ainvoke self env (initial_state self user_query')) (\<lambda>final_state.
     io_return (final_response final_state))"


section \<open>Reading a log\<close>

text \<open>The states the graph went through, each with the node that produced it.\<close>

definition checkpoints :: "effect list \<Rightarrow> (node \<times> council_state) list" where
  "checkpoints lg = concat (map (\<lambda>e. case e of Checkpoint n s \<Rightarrow> [(n, s)] | _ \<Rightarrow> []) lg)"

text \<open>The number of concurrent reviewer fan-outs.\<close>

definition fanouts :: "effect list \<Rightarrow> nat" where
  "fanouts lg = length (concat (map (\<lambda>e. case e of Gathered calls \<Rightarrow> [calls] | _ \<Rightarrow> []) lg))"

text \<open>The number of times a node was executed to completion.\<close>

definition stages_executed :: "node \<Rightarrow> effect list \<Rightarrow> nat" where
  "stages_executed n lg = length (filter (\<lambda>(m, s). m = n) (checkpoints lg))"

text \<open>The events delivered, each with its type and, for a finished round, the round number.\<close>

definition notifications :: "effect list \<Rightarrow> (str \<times> int option) list" where
  "notifications lg =
     concat (map (\<lambda>e. case e of
                         Notified ty (Round r fb) \<Rightarrow> [(ty, Some r)]
                       | Notified ty _ \<Rightarrow> [(ty, None)]
                       | _ \<Rightarrow> []) lg)"


text \<open>The provider answers every call, and the callback returns from every notification.\<close>

definition never_fails :: "env \<Rightarrow> bool" where
  "never_fails env \<longleftrightarrow> (\<forall>t a ms. \<not> isl (ainvoke env t a ms))"

definition returns :: "callback option \<Rightarrow> bool" where
  "returns cb \<longleftrightarrow> (\<forall>f ty p. cb = Some f \<longrightarrow> f ty p = None)"


text \<open>
  The configurations a run passes through: the node about to run, the state it will read and
  the log so far.
\<close>

inductive reaches ::
  "workflow \<Rightarrow> env \<Rightarrow> node \<times> council_state \<times> effect list
     \<Rightarrow> node \<times> council_state \<times> effect list \<Rightarrow> bool"
  for self :: workflow and env :: env where
    here: "reaches self env c c"
  | step: "n \<noteq> END \<Longrightarrow> node_action self env n state lg = (Inr u, lg') \<Longrightarrow>
           reaches self env
             (next_node n (apply_update state u), apply_update state u,
              lg' @ [Checkpoint n (apply_update state u)]) c \<Longrightarrow>
           reaches self env (n, state, lg) c"

code_pred reaches .

text \<open>
  The number of debates and of draft updates a run still makes from a node: each debate
  takes \<open>current_round\<close> one step towards \<open>max_rounds\<close>, and there is at least one.
\<close>

definition debates_ahead :: "node \<Rightarrow> council_state \<Rightarrow> nat" where
  "debates_ahead n state =
     (case n of
        START \<Rightarrow> max 1 (nat (max_rounds state))
      | Create_draft \<Rightarrow> max 1 (nat (max_rounds state))
      | Council_debate \<Rightarrow> max 1 (nat (max_rounds state - current_round state))
      | Update_draft \<Rightarrow> max 1 (nat (max_rounds state - current_round state))
      | Final_edit \<Rightarrow> 0
      | END \<Rightarrow> 0)"

definition updates_ahead :: "node \<Rightarrow> council_state \<Rightarrow> nat" where
  "updates_ahead n state =
     (case n of
        Update_draft \<Rightarrow> debates_ahead n state
      | _ \<Rightarrow> debates_ahead n state - 1)"

text \<open>
  The lengths of \<open>drafts\<close> and \<open>feedback_history\<close> in each state the graph went through.
\<close>

definition history_lengths :: "effect list \<Rightarrow> (node \<times> nat \<times> nat) list" where
  "history_lengths lg =
     map (\<lambda>(n, s). (n, length (drafts s), length (feedback_history s))) (checkpoints lg)"

text \<open>
  A log with everything the callback adds taken out: the notifications, and the callback
  that every recorded state carries in its field \<open>ui_callback\<close>.
\<close>

fun silent :: "effect \<Rightarrow> effect list" where
  "silent (Notified ty p) = []"
| "silent (Checkpoint n s) = [Checkpoint n (s\<lparr>ui_callback := None\<rparr>)]"
| "silent e = [e]"

definition without_callback :: "effect list \<Rightarrow> effect list" where
  "without_callback lg = concat (map silent lg)"


text \<open>
  What the reviewers say in a round, listed in the order the reviewers are configured: for
  each council member its agent id and the content of its reply.
\<close>

definition configured_feedback :: "workflow \<Rightarrow> env \<Rightarrow> council_state \<Rightarrow> nat \<Rightarrow> feedback list" where
  "configured_feedback self env state t =
     map (\<lambda>member.
            \<lparr>fb_agent_id = self_agent_id (base member),
             fb_feedback =
               fst (split_summary (ai_content (projr
                 (ainvoke env t (base member)
                    (prompt (provide_feedback member (user_query state) (current_draft state)
                       (current_round state + 1)))))))\<rparr>)
         (self_council_members self)"

text \<open>The events a node emits when it runs to its end with a callback present.\<close>

definition node_events :: "node \<Rightarrow> council_state \<Rightarrow> (str \<times> int option) list" where
  "node_events n state =
     (case n of
        Create_draft \<Rightarrow> [(py ''status'', None), (py ''draft_created'', None)]
      | Council_debate \<Rightarrow>
          [(py ''status'', None), (py ''feedback_round'', Some (current_round state + 1))]
      | Update_draft \<Rightarrow> [(py ''status'', None), (py ''draft_updated'', None)]
      | Final_edit \<Rightarrow> [(py ''status'', None), (py ''final_response'', None)]
      | _ \<Rightarrow> [])"


text \<open>What a notification adds to the log when the callback returns from it.\<close>

definition notices :: "callback option \<Rightarrow> str \<Rightarrow> payload \<Rightarrow> effect list" where
  "notices cb event_type data =
     (case cb of None \<Rightarrow> [] | Some f \<Rightarrow> [Notified event_type data])"

text \<open>
  How \<open>drafts\<close> and \<open>feedback_history\<close> stand to each other in the state a node leaves
  behind: the draft stages put \<open>drafts\<close> one ahead, a debate and the final edit find them
  level.
\<close>

definition in_step :: "node \<times> nat \<times> nat \<Rightarrow> bool" where
  "in_step x =
     (case x of (n, d, h) \<Rightarrow> if n = Create_draft \<or> n = Update_draft then d = 1 + h else d = h)"


section \<open>An example: the configuration of the repository's tests\<close>

definition example_agent_config :: agent_config where
  "example_agent_config = \<lparr>model = py ''gpt-4o-mini'', temperature = 7 / 10\<rparr>"

definition example_config :: council_config where
  "example_config =
     \<lparr>openai_api_key = py ''test-key-12345'',
      draft_agent = example_agent_config,
      council_members = [example_agent_config, example_agent_config],
      editor_agent = example_agent_config,
      debate_rounds = 2\<rparr>"

definition example_query :: str where
  "example_query = py ''Explain X''"

definition example_reply :: ai_message where
  "example_reply = \<lparr>ai_content = py ''Text. Summary: ok'', usage_metadata = None\<rparr>"

text \<open>A provider that always answers; the second reviewer answers before the first.\<close>

definition example_env :: env where
  "example_env =
     \<lparr>ainvoke = (\<lambda>t a ms. Inr example_reply),
      latency = (\<lambda>t a. if self_agent_id a = py ''council_member_0'' then 2 else 1)\<rparr>"

text \<open>A provider that fails every call of the second reviewer.\<close>

definition rate_limit :: exn where
  "rate_limit = Failure (py ''rate limit'')"

definition failing_env :: env where
  "failing_env =
     \<lparr>ainvoke = (\<lambda>t a ms. if self_agent_id a = py ''council_member_1'' then Inl rate_limit
                           else Inr example_reply),
      latency = (\<lambda>t a. 0)\<rparr>"

definition quiet_callback :: callback where
  "quiet_callback = (\<lambda>event_type data. None)"



text \<open>The run of the graph on the example query, for a given configuration and callback.\<close>

definition example_run ::
  "council_config \<Rightarrow> callback option \<Rightarrow> (exn + council_state) \<times> effect list" where
  "example_run config cb =
     workflow_ainvoke (CouncilWorkflow_init config cb) example_env
       (initial_state (CouncilWorkflow_init config cb) example_query) []"

text \<open>
  The state and the log of the example once the initial draft is made, with the provider
  that fails the second reviewer and no callback.
\<close>

definition example_after_draft :: "council_state \<times> effect list" where
  "example_after_draft =
     (let self = CouncilWorkflow_init example_config None;
          state = initial_state self example_query;
          (r, lg) = create_initial_draft self failing_env state [];
          state' = apply_update state (projr r)
      in (state', lg @ [Checkpoint Create_draft state']))"


section \<open>Strings\<close>

lemma rfind_Some_decomp:
  "rfind sep text = Some i \<Longrightarrow> text = take i text @ sep @ drop (i + length sep) text"
proof (induction "text" arbitrary: i)
  case Nil
  then show ?case by (simp split: if_splits)
next
  case (Cons c cs)
  show ?case
  proof (cases "rfind sep cs")
    case None
    with Cons.prems have i: "i = 0" and tk: "take (length sep) (c # cs) = sep"
      by (simp_all split: if_splits)
    have "c # cs = take (length sep) (c # cs) @ drop (length sep) (c # cs)"
      by (simp only: append_take_drop_id)
    with i tk show ?thesis by simp
  next
    case (Some j)
    with Cons.prems have i: "i = Suc j" by simp
    from Cons.IH [OF Some] i show ?thesis by simp
  qed
qed

lemma rfind_None_iff:
  "rfind sep text = None \<longleftrightarrow> (\<forall>ps ss. text \<noteq> ps @ sep @ ss)"
proof (induction "text")
  case Nil
  then show ?case by auto
next
  case (Cons c cs)
  show ?case
  proof (cases "rfind sep cs")
    case (Some j)
    from rfind_Some_decomp [OF Some]
    have "c # cs = (c # take j cs) @ sep @ drop (j + length sep) cs"
      by simp
    then have "\<exists>ps ss. c # cs = ps @ sep @ ss" by blast
    moreover have "rfind sep (c # cs) \<noteq> None" using Some by simp
    ultimately show ?thesis by blast
  next
    case None
    with Cons.IH have no: "\<forall>ps ss. cs \<noteq> ps @ sep @ ss" by simp
    show ?thesis
    proof (cases "take (length sep) (c # cs) = sep")
      case True
      then have "c # cs = [] @ sep @ drop (length sep) (c # cs)"
        by (metis append_Nil append_take_drop_id)
      then have "\<exists>ps ss. c # cs = ps @ sep @ ss" by blast
      moreover have "rfind sep (c # cs) \<noteq> None" using None True by simp
      ultimately show ?thesis by blast
    next
      case False
      have "c # cs \<noteq> ps @ sep @ ss" for ps ss
      proof (cases ps)
        case Nil
        with False show ?thesis by auto
      next
        case (Cons p ps')
        with no show ?thesis by auto
      qed
      with None False show ?thesis by simp
    qed
  qed
qed

lemma contains_iff: "contains sep text \<longleftrightarrow> (\<exists>ps ss. text = ps @ sep @ ss)"
  using rfind_None_iff [of sep "text"] by (auto simp: contains_def)

lemma rfind_last:
  "rfind sep text = Some i \<Longrightarrow> sep \<noteq> [] \<Longrightarrow> rfind sep (drop (Suc i) text) = None"
proof (induction "text" arbitrary: i)
  case Nil
  then show ?case by simp
next
  case (Cons c cs)
  show ?case
  proof (cases "rfind sep cs")
    case None
    with Cons.prems have "i = 0" by (simp split: if_splits)
    with None show ?thesis by simp
  next
    case (Some j)
    with Cons.prems have "i = Suc j" by simp
    with Cons.IH [OF Some Cons.prems(2)] show ?thesis by simp
  qed
qed

lemma trimmed_Nil: "trimmed []"
  by (simp add: trimmed_def)

lemma trimmed_strip: "trimmed (strip s)"
proof (cases "strip s = []")
  case True
  then show ?thesis by (simp add: trimmed_def)
next
  case False
  let ?a = "dropWhile isspace s"
  let ?b = "dropWhile isspace (rev ?a)"
  from False have b: "?b \<noteq> []" by (simp add: strip_def)
  then have hb: "\<not> isspace (hd ?b)" by (rule hd_dropWhile)
  have a: "?a \<noteq> []"
  proof
    assume e: "?a = []"
    have "?b = []" unfolding e by simp
    with b show False by simp
  qed
  then have ha: "\<not> isspace (hd ?a)" by (rule hd_dropWhile)
  have "last (strip s) = hd ?b" using b by (simp add: strip_def last_rev)
  moreover have "hd (strip s) = hd ?a"
  proof -
    from b obtain us where "rev ?a = us @ ?b" by (metis takeWhile_dropWhile_id)
    then have e: "?a = rev ?b @ rev us" by (metis rev_append rev_rev_ident)
    have "hd ?a = hd (rev ?b @ rev us)" by (rule arg_cong [OF e])
    also have "\<dots> = hd (rev ?b)" using b by simp
    finally show ?thesis by (simp add: strip_def)
  qed
  ultimately show ?thesis using ha hb by (simp add: trimmed_def)
qed

lemma summary_marker_nonempty: "summary_marker \<noteq> []"
  by (simp add: summary_marker_def py_def)

lemma split_summary_marker:
  assumes "contains summary_marker text"
  shows "\<exists>main rest. text = main @ summary_marker @ rest
           \<and> \<not> contains summary_marker (tl (summary_marker @ rest))
           \<and> split_summary text = (strip main, strip rest)"
proof -
  from assms obtain i where i: "rfind summary_marker text = Some i"
    by (auto simp: contains_def)
  let ?main = "take i text" and ?rest = "drop (i + length summary_marker) text"
  have dec: "text = ?main @ summary_marker @ ?rest" by (rule rfind_Some_decomp [OF i])
  have len: "i \<le> length text"
  proof (rule ccontr)
    assume "\<not> i \<le> length text"
    then have "take i text = text" by simp
    with dec have "summary_marker @ ?rest = []" by (metis append_self_conv)
    with summary_marker_nonempty show False by simp
  qed
  have "drop (Suc i) text = tl (drop i text)" by (simp add: drop_Suc drop_tl)
  also have "drop i text = summary_marker @ ?rest"
  proof -
    have "drop i text = drop i (?main @ summary_marker @ ?rest)"
      by (rule arg_cong [OF dec])
    also have "\<dots> = summary_marker @ ?rest" using len by simp
    finally show ?thesis .
  qed
  finally have "tl (summary_marker @ ?rest) = drop (Suc i) text" by simp
  with rfind_last [OF i summary_marker_nonempty]
  have "\<not> contains summary_marker (tl (summary_marker @ ?rest))" by (simp add: contains_def)
  moreover have "split_summary text = (strip ?main, strip ?rest)"
    using assms i by (simp add: split_summary_def rsplit1_def)
  ultimately show ?thesis using dec by blast
qed


section \<open>Logs\<close>

lemma checkpoints_append [simp]: "checkpoints (a @ b) = checkpoints a @ checkpoints b"
  by (simp add: checkpoints_def)

lemma checkpoints_simps [simp]:
  "checkpoints [] = []"
  "checkpoints (Checkpoint n s # lg) = (n, s) # checkpoints lg"
  "checkpoints (Notified ty p # lg) = checkpoints lg"
  "checkpoints (Invoked a ms # lg) = checkpoints lg"
  "checkpoints (Gathered calls # lg) = checkpoints lg"
  by (simp_all add: checkpoints_def)

lemma fanouts_append [simp]: "fanouts (a @ b) = fanouts a + fanouts b"
  by (simp add: fanouts_def)

lemma fanouts_simps [simp]:
  "fanouts [] = 0"
  "fanouts (Checkpoint n s # lg) = fanouts lg"
  "fanouts (Notified ty p # lg) = fanouts lg"
  "fanouts (Invoked a ms # lg) = fanouts lg"
  "fanouts (Gathered calls # lg) = Suc (fanouts lg)"
  by (simp_all add: fanouts_def)

lemma stages_executed_simps [simp]:
  "stages_executed n (a @ b) = stages_executed n a + stages_executed n b"
  "stages_executed n [Checkpoint m s] = (if m = n then 1 else 0)"
  by (simp_all add: stages_executed_def)

lemma stages_executed_Nil [simp]: "stages_executed n [] = 0"
  by (simp add: stages_executed_def)

lemma notifications_append [simp]: "notifications (a @ b) = notifications a @ notifications b"
  by (simp add: notifications_def)

lemma notifications_simps [simp]:
  "notifications [] = []"
  "notifications (Checkpoint n s # lg) = notifications lg"
  "notifications (Notified ty (Message m) # lg) = (ty, None) # notifications lg"
  "notifications (Notified ty (Response r) # lg) = (ty, None) # notifications lg"
  "notifications (Notified ty (Round k fb) # lg) = (ty, Some k) # notifications lg"
  "notifications (Invoked a ms # lg) = notifications lg"
  "notifications (Gathered calls # lg) = notifications lg"
  by (simp_all add: notifications_def)

lemma history_lengths_append [simp]:
  "history_lengths (a @ b) = history_lengths a @ history_lengths b"
  by (simp add: history_lengths_def)

lemma history_lengths_simps [simp]:
  "history_lengths [] = []"
  "history_lengths [Checkpoint n s] = [(n, length (drafts s), length (feedback_history s))]"
  by (simp_all add: history_lengths_def)

lemma clock_append [simp]: "clock (a @ b) = clock a + clock b"
  by (simp add: clock_def)

lemma clock_simps [simp]:
  "clock [] = 0"
  "clock (Notified ty p # lg) = clock lg"
  "clock (Checkpoint n s # lg) = clock lg"
  "clock (Invoked a ms # lg) = Suc (clock lg)"
  "clock (Gathered calls # lg) = Suc (clock lg)"
  by (simp_all add: clock_def)

lemma clock_notices [simp]: "clock (notices cb ty p) = 0"
  by (simp add: notices_def split: option.splits)

lemma notices_None [simp]: "notices None ty p = []"
  by (simp add: notices_def)

lemma without_callback_append [simp]:
  "without_callback (a @ b) = without_callback a @ without_callback b"
  by (simp add: without_callback_def)

lemma without_callback_simps [simp]:
  "without_callback [] = []"
  "without_callback (Notified ty p # lg) = without_callback lg"
  "without_callback (Checkpoint n s # lg) =
     Checkpoint n (s\<lparr>ui_callback := None\<rparr>) # without_callback lg"
  "without_callback (Invoked a ms # lg) = Invoked a ms # without_callback lg"
  "without_callback (Gathered calls # lg) = Gathered calls # without_callback lg"
  by (simp_all add: without_callback_def)

lemma without_callback_notices [simp]: "without_callback (notices cb ty p) = []"
  by (simp add: notices_def split: option.splits)

lemma clock_without_callback [simp]: "clock (without_callback lg) = clock lg"
proof (induction lg)
  case Nil
  show ?case by simp
next
  case (Cons e lg)
  then show ?case by (cases e) simp_all
qed



section \<open>The fan-out\<close>

lemma completion_order_set: "set (completion_order lat) = {0..<length lat}"
  by (simp add: completion_order_def)

lemma deliver_Inr_fold:
  "\<forall>i\<in>set order. \<not> isl (outcomes ! i) \<Longrightarrow>
   deliver outcomes order slots =
     Inr (fold (\<lambda>i sl. sl[i := Some (projr (outcomes ! i))]) order slots)"
proof (induction order arbitrary: slots)
  case Nil
  then show ?case by simp
next
  case (Cons i order)
  then obtain x where x: "outcomes ! i = Inr x" by (cases "outcomes ! i") auto
  with Cons show ?case by simp
qed

lemma fold_slots_length:
  "length (fold (\<lambda>i sl. sl[i := Some (f i)]) order slots) = length slots"
  by (induction order arbitrary: slots) simp_all

lemma fold_slots_nth:
  "k < length slots \<Longrightarrow>
   fold (\<lambda>i sl. sl[i := Some (f i)]) order slots ! k =
     (if k \<in> set order then Some (f k) else slots ! k)"
proof (induction order arbitrary: slots)
  case Nil
  then show ?case by simp
next
  case (Cons i order)
  from Cons.prems have "k < length (slots[i := Some (f i)])" by simp
  from Cons.IH [OF this] Cons.prems show ?case
    by (auto simp: nth_list_update)
qed

lemma deliver_ok:
  assumes "\<forall>i<length outcomes. \<not> isl (outcomes ! i)"
    and "set order = {0..<length outcomes}"
    and "length slots = length outcomes"
  shows "\<exists>slots'. deliver outcomes order slots = Inr slots'
           \<and> map the slots' = map projr outcomes"
proof -
  let ?f = "\<lambda>i. projr (outcomes ! i)"
  let ?r = "fold (\<lambda>i sl. sl[i := Some (?f i)]) order slots"
  from assms(1,2) have "\<forall>i\<in>set order. \<not> isl (outcomes ! i)" by simp
  then have d: "deliver outcomes order slots = Inr ?r" by (rule deliver_Inr_fold)
  have len: "length ?r = length outcomes" by (simp add: fold_slots_length assms(3))
  have "map the ?r = map projr outcomes"
  proof (rule nth_equalityI)
    show "length (map the ?r) = length (map projr outcomes)" using len by simp
  next
    fix k assume "k < length (map the ?r)"
    then have k: "k < length outcomes" using len by simp
    then have "?r ! k = Some (?f k)"
      using fold_slots_nth [of k slots ?f order] assms(2,3) by simp
    with k len show "map the ?r ! k = map projr outcomes ! k" by simp
  qed
  with d show ?thesis by blast
qed

lemma deliver_Inr_all:
  "deliver outcomes order slots = Inr slots' \<Longrightarrow> \<forall>i\<in>set order. \<not> isl (outcomes ! i)"
  by (induction order arbitrary: slots) (auto split: sum.splits)

lemma deliver_Inl:
  "deliver outcomes order slots = Inl e \<Longrightarrow> \<exists>i\<in>set order. outcomes ! i = Inl e"
  by (induction order arbitrary: slots) (auto split: sum.splits)

lemma gather_log: "snd (gather env aws lg) = lg @ [Gathered (map (\<lambda>c. (caller c, prompt c)) aws)]"
  by (simp add: gather_def Let_def)

lemma gather_Inr:
  assumes "gather env aws lg = (Inr xs, lg')"
  shows "(\<forall>c\<in>set aws. \<not> isl (ainvoke env (clock lg) (caller c) (prompt c)))
       \<and> xs = map (\<lambda>c. resume c (projr (ainvoke env (clock lg) (caller c) (prompt c)))) aws"
proof -
  let ?out = "map (\<lambda>c. map_sum id (resume c) (ainvoke env (clock lg) (caller c) (prompt c))) aws"
  let ?ord = "completion_order (map (\<lambda>c. latency env (clock lg) (caller c)) aws)"
  from assms obtain slots where d: "deliver ?out ?ord (replicate (length aws) None) = Inr slots"
    and xs: "xs = map the slots"
    by (auto simp: gather_def Let_def split: sum.splits)
  have so: "set ?ord = {0..<length ?out}" by (simp add: completion_order_set)
  from deliver_Inr_all [OF d] so have ok: "\<forall>i<length aws. \<not> isl (?out ! i)" by simp
  have all: "\<forall>c\<in>set aws. \<not> isl (ainvoke env (clock lg) (caller c) (prompt c))"
  proof
    fix c assume "c \<in> set aws"
    then obtain i where i: "i < length aws" "aws ! i = c" by (auto simp: in_set_conv_nth)
    from ok i(1)
    have "\<not> isl (map_sum id (resume (aws ! i))
            (ainvoke env (clock lg) (caller (aws ! i)) (prompt (aws ! i))))"
      by simp
    then show "\<not> isl (ainvoke env (clock lg) (caller c) (prompt c))"
      unfolding i(2) by (cases "ainvoke env (clock lg) (caller c) (prompt c)") simp_all
  qed
  from ok have ok': "\<forall>i<length ?out. \<not> isl (?out ! i)" by simp
  from deliver_ok [OF ok' so, of "replicate (length aws) None"] d
  have "map the slots = map projr ?out" by simp
  also have "\<dots> = map (\<lambda>c. resume c (projr (ainvoke env (clock lg) (caller c) (prompt c)))) aws"
  proof (rule nth_equalityI)
    show "length (map projr ?out) =
      length (map (\<lambda>c. resume c (projr (ainvoke env (clock lg) (caller c) (prompt c)))) aws)"
      by simp
  next
    fix i assume "i < length (map projr ?out)"
    then have i: "i < length aws" by simp
    then have "aws ! i \<in> set aws" by simp
    with all have "\<not> isl (ainvoke env (clock lg) (caller (aws ! i)) (prompt (aws ! i)))" by blast
    then show "map projr ?out ! i =
      map (\<lambda>c. resume c (projr (ainvoke env (clock lg) (caller c) (prompt c)))) aws ! i"
      using i by (cases "ainvoke env (clock lg) (caller (aws ! i)) (prompt (aws ! i))") simp_all
  qed
  finally show ?thesis using all xs by simp
qed

lemma gather_Inl:
  assumes "gather env aws lg = (Inl e, lg')"
  shows "\<exists>c\<in>set aws. ainvoke env (clock lg) (caller c) (prompt c) = Inl e"
proof -
  let ?out = "map (\<lambda>c. map_sum id (resume c) (ainvoke env (clock lg) (caller c) (prompt c))) aws"
  let ?ord = "completion_order (map (\<lambda>c. latency env (clock lg) (caller c)) aws)"
  from assms have "deliver ?out ?ord (replicate (length aws) None) = Inl e"
    by (auto simp: gather_def Let_def split: sum.splits)
  from deliver_Inl [OF this] obtain i where i: "i \<in> set ?ord" "?out ! i = Inl e" by blast
  then have il: "i < length aws" by (simp add: completion_order_set)
  with i(2) have "ainvoke env (clock lg) (caller (aws ! i)) (prompt (aws ! i)) = Inl e"
    by (cases "ainvoke env (clock lg) (caller (aws ! i)) (prompt (aws ! i))") simp_all
  with il show ?thesis by (metis nth_mem)
qed

lemma gather_ok:
  assumes "\<forall>c\<in>set aws. \<not> isl (ainvoke env (clock lg) (caller c) (prompt c))"
  shows "gather env aws lg =
     (Inr (map (\<lambda>c. resume c (projr (ainvoke env (clock lg) (caller c) (prompt c)))) aws),
      lg @ [Gathered (map (\<lambda>c. (caller c, prompt c)) aws)])"
proof (cases "fst (gather env aws lg)")
  case (Inl e)
  then have "gather env aws lg = (Inl e, snd (gather env aws lg))" by (metis prod.collapse)
  from gather_Inl [OF this] assms show ?thesis by auto
next
  case (Inr xs)
  then have g: "gather env aws lg = (Inr xs, snd (gather env aws lg))" by (metis prod.collapse)
  from gather_Inr [OF g] g show ?thesis by (simp add: gather_log)
qed

lemma gather_fails:
  assumes "c \<in> set aws" and "isl (ainvoke env (clock lg) (caller c) (prompt c))"
  shows "\<exists>e. gather env aws lg = (Inl e, lg @ [Gathered (map (\<lambda>c. (caller c, prompt c)) aws)])
           \<and> (\<exists>c\<in>set aws. ainvoke env (clock lg) (caller c) (prompt c) = Inl e)"
proof (cases "fst (gather env aws lg)")
  case (Inl e)
  then have g: "gather env aws lg = (Inl e, snd (gather env aws lg))" by (metis prod.collapse)
  from gather_Inl [OF g] g show ?thesis by (simp add: gather_log)
next
  case (Inr xs)
  then have g: "gather env aws lg = (Inr xs, snd (gather env aws lg))" by (metis prod.collapse)
  from gather_Inr [OF g] assms show ?thesis by blast
qed


section \<open>Agents\<close>

lemma coroutine_simps [simp]:
  "caller (generate_response self messages) = self"
  "prompt (generate_response self messages) = messages"
  "caller (and_then c f) = caller c"
  "prompt (and_then c f) = prompt c"
  "resume (and_then c f) r = f (resume c r)"
  by (simp_all add: generate_response_def and_then_def)

lemma generate_response_fields:
  "agent_id (resume (generate_response self messages) r) = self_agent_id self"
  "agent_type (resume (generate_response self messages) r) = self_agent_type self"
  "content (resume (generate_response self messages) r) = fst (split_summary (ai_content r))"
  by (simp_all add: generate_response_def Let_def split: prod.splits option.splits)


lemma provide_feedback_simps [simp]:
  "caller (provide_feedback member q d k) = base member"
  "agent_id (resume (provide_feedback member q d k) r) = self_agent_id (base member)"
  "content (resume (provide_feedback member q d k) r) = fst (split_summary (ai_content r))"
  by (simp_all add: provide_feedback_def Let_def generate_response_fields)

lemma configured_reviewer_ids:
  "map (\<lambda>member. self_agent_id (base member))
       (self_council_members (CouncilWorkflow_init config cb))
   = map (\<lambda>i. py ''council_member_'' @ str_int (int i)) [0..<length (council_members config)]"
proof -
  have "map (\<lambda>member. self_agent_id (base member))
       (self_council_members (CouncilWorkflow_init config cb))
     = map ((\<lambda>i. py ''council_member_'' @ str_int (int i)) \<circ> fst)
         (enumerate 0 (council_members config))"
    by (simp add: CouncilWorkflow_init_def CouncilMember_init_def BaseAgent_init_def o_def
          split_def)
  also have "\<dots> = map (\<lambda>i. py ''council_member_'' @ str_int (int i))
      (map fst (enumerate 0 (council_members config)))"
    by (simp only: map_map)
  also have "map fst (enumerate 0 (council_members config))
      = [0..<0 + length (council_members config)]"
    by (rule map_fst_enumerate)
  finally show ?thesis by simp
qed


section \<open>Nodes\<close>

lemma returns_simps [simp]: "returns None" "returns (Some quiet_callback)"
  by (simp_all add: returns_def quiet_callback_def)

lemma never_fails_Inr:
  "never_fails env \<Longrightarrow> ainvoke env t a ms = Inr (projr (ainvoke env t a ms))"
  by (simp add: never_fails_def)

lemma notify_returns:
  "returns cb \<Longrightarrow> notify cb ty p lg = (Inr (), lg @ notices cb ty p)"
  by (auto simp: returns_def notify_def notices_def io_return_def split: option.splits)

lemma notify_Inr:
  "notify cb ty p lg = (Inr x, lg') \<Longrightarrow> lg' = lg @ notices cb ty p"
  by (auto simp: notify_def notices_def io_return_def split: option.splits)

lemma await_ok:
  "never_fails env \<Longrightarrow>
   await env c lg =
     (Inr (resume c (projr (ainvoke env (clock lg) (caller c) (prompt c)))),
      lg @ [Invoked (caller c) (prompt c)])"
  using never_fails_Inr [of env "clock lg" "caller c" "prompt c"]
  by (cases "ainvoke env (clock lg) (caller c) (prompt c)") (simp_all add: await_def)

lemma gather_never_fails:
  "never_fails env \<Longrightarrow>
   gather env aws lg =
     (Inr (map (\<lambda>c. resume c (projr (ainvoke env (clock lg) (caller c) (prompt c)))) aws),
      lg @ [Gathered (map (\<lambda>c. (caller c, prompt c)) aws)])"
  by (rule gather_ok) (simp add: never_fails_def)

lemma node_action_checkpoints:
  "node_action self env n state lg = (r, lg') \<Longrightarrow> checkpoints lg' = checkpoints lg"
  by (cases n)
     (auto simp: node_action_def create_initial_draft_def council_debate_def update_draft_def
        final_edit_def io_bind_def io_return_def io_raise_def notify_def await_def gather_def
        Let_def
      split: prod.splits sum.splits option.splits if_splits)

lemma node_action_fanouts:
  "node_action self env n state lg = (Inr u, lg') \<Longrightarrow>
   fanouts lg' = fanouts lg + (if n = Council_debate then 1 else 0)"
  by (cases n)
     (auto simp: node_action_def create_initial_draft_def council_debate_def update_draft_def
        final_edit_def io_bind_def io_return_def io_raise_def notify_def await_def gather_def
        Let_def
      split: prod.splits sum.splits option.splits if_splits)

lemma node_action_state:
  assumes "node_action self env n state lg = (Inr u, lg')"
  shows "length (drafts (apply_update state u)) =
           length (drafts state) + (if n = Create_draft \<or> n = Update_draft then 1 else 0)"
    and "length (feedback_history (apply_update state u)) =
           length (feedback_history state) + (if n = Council_debate then 1 else 0)"
    and "current_round (apply_update state u) =
           (if n = Create_draft then 0
            else if n = Council_debate then current_round state + 1
            else current_round state)"
    and "max_rounds (apply_update state u) = max_rounds state"
    and "user_query (apply_update state u) = user_query state"
    and "ui_callback (apply_update state u) = ui_callback state"
  using assms
  by (cases n;
      auto simp: node_action_def create_initial_draft_def council_debate_def update_draft_def
        final_edit_def io_bind_def io_return_def io_raise_def notify_def await_def gather_def
        Let_def no_update_def apply_update_def
      split: prod.splits sum.splits option.splits if_splits)+

lemma node_action_stages:
  "node_action self env n state lg = (r, lg') \<Longrightarrow> stages_executed m lg' = stages_executed m lg"
  by (simp add: stages_executed_def node_action_checkpoints)

lemma node_action_history_lengths:
  "node_action self env n state lg = (r, lg') \<Longrightarrow> history_lengths lg' = history_lengths lg"
  by (simp add: history_lengths_def node_action_checkpoints)

lemma node_action_notifications:
  "node_action self env n state lg = (Inr u, lg') \<Longrightarrow>
   notifications lg' =
     notifications lg @ (if self_ui_callback self = None then [] else node_events n state)"
  by (cases n)
     (auto simp: node_action_def create_initial_draft_def council_debate_def update_draft_def
        final_edit_def io_bind_def io_return_def io_raise_def notify_def await_def gather_def
        Let_def node_events_def
      split: prod.splits sum.splits option.splits if_splits)

lemma node_action_ok:
  assumes nf: "never_fails env" and rt: "returns (self_ui_callback self)"
    and fh: "n = Update_draft \<longrightarrow> feedback_history state \<noteq> []"
  shows "\<exists>u lg'. node_action self env n state lg = (Inr u, lg')"
proof (cases n)
  case START
  then show ?thesis by (simp add: node_action_def io_return_def)
next
  case Create_draft
  then show ?thesis
    by (simp add: node_action_def create_initial_draft_def io_bind_def io_return_def
          notify_returns [OF rt] await_ok [OF nf])
next
  case Council_debate
  then show ?thesis
    by (simp add: node_action_def council_debate_def Let_def io_bind_def io_return_def
          notify_returns [OF rt] gather_never_fails [OF nf])
next
  case Update_draft
  with fh show ?thesis
    by (simp add: node_action_def update_draft_def Let_def io_bind_def io_return_def
          notify_returns [OF rt] await_ok [OF nf])
next
  case Final_edit
  then show ?thesis
    by (simp add: node_action_def final_edit_def io_bind_def io_return_def
          notify_returns [OF rt] await_ok [OF nf])
next
  case END
  then show ?thesis by (simp add: node_action_def io_return_def)
qed

lemma council_debate_Inr:
  assumes "council_debate self env state lg = (Inr u, lg')"
  shows "u = no_update\<lparr>u_current_round := Some (current_round state + 1),
                        u_feedback_history := Some [configured_feedback self env state (clock lg)]\<rparr>"
    and "lg' = lg @ notices (self_ui_callback self) (py ''status'')
                     (Message (py ''Council debate round '' @ str_int (current_round state + 1)
                        @ py ''...''))
               @ [Gathered (map (\<lambda>member. (base member,
                     prompt (provide_feedback member (user_query state) (current_draft state)
                       (current_round state + 1)))) (self_council_members self))]
               @ notices (self_ui_callback self) (py ''feedback_round'')
                   (Round (current_round state + 1) (configured_feedback self env state (clock lg)))"
proof -
  let ?k = "current_round state + 1"
  let ?tasks = "map (\<lambda>member. provide_feedback member (user_query state) (current_draft state) ?k)
                  (self_council_members self)"
  let ?cb = "self_ui_callback self"
  let ?status = "Message (py ''Council debate round '' @ str_int ?k @ py ''...'')"
  obtain r1 lg1 where n1: "notify ?cb (py ''status'') ?status lg = (r1, lg1)" by force
  obtain r2 lg2 where g: "gather env ?tasks lg1 = (r2, lg2)" by force
  from assms n1 obtain x1 where r1: "r1 = Inr x1"
    by (cases r1) (simp_all add: council_debate_def Let_def io_bind_def)
  from assms n1 r1 g obtain xs where r2: "r2 = Inr xs"
    by (cases r2) (simp_all add: council_debate_def Let_def io_bind_def)
  let ?fb = "map (\<lambda>response. \<lparr>fb_agent_id = agent_id response, fb_feedback = content response\<rparr>) xs"
  obtain r3 lg3 where n3: "notify ?cb (py ''feedback_round'') (Round ?k ?fb) lg2 = (r3, lg3)"
    by force
  from assms n1 r1 g r2 n3 obtain x3 where r3: "r3 = Inr x3"
    by (cases r3) (simp_all add: council_debate_def Let_def io_bind_def)
  from assms n1 r1 g r2 n3 r3
  have u: "u = no_update\<lparr>u_current_round := Some ?k, u_feedback_history := Some [?fb]\<rparr>"
    and lg': "lg' = lg3"
    by (simp_all add: council_debate_def Let_def io_bind_def io_return_def)
  from notify_Inr [OF n1 [unfolded r1]] have lg1: "lg1 = lg @ notices ?cb (py ''status'') ?status" .
  then have c: "clock lg1 = clock lg" by simp
  from gather_Inr [OF g [unfolded r2]] c
  have xs: "xs = map (\<lambda>c. resume c (projr (ainvoke env (clock lg) (caller c) (prompt c)))) ?tasks"
    by simp
  then have fb: "?fb = configured_feedback self env state (clock lg)"
    by (simp add: configured_feedback_def o_def)
  from u fb show "u = no_update\<lparr>u_current_round := Some ?k,
      u_feedback_history := Some [configured_feedback self env state (clock lg)]\<rparr>"
    by simp
  from g r2 have "lg2 = lg1 @ [Gathered (map (\<lambda>c. (caller c, prompt c)) ?tasks)]"
    using gather_log [of env ?tasks lg1] by simp
  moreover from notify_Inr [OF n3 [unfolded r3]]
  have "lg3 = lg2 @ notices ?cb (py ''feedback_round'') (Round ?k ?fb)" .
  ultimately show "lg' = lg @ notices ?cb (py ''status'') ?status
               @ [Gathered (map (\<lambda>member. (base member,
                     prompt (provide_feedback member (user_query state) (current_draft state) ?k)))
                   (self_council_members self))]
               @ notices ?cb (py ''feedback_round'')
                   (Round ?k (configured_feedback self env state (clock lg)))"
    using lg' lg1 fb by (simp add: o_def)
qed

lemma council_debate_reviewer_fails:
  assumes st: "fst (notify (self_ui_callback self) (py ''status'')
                 (Message (py ''Council debate round '' @ str_int (current_round state + 1)
                    @ py ''...'')) lg) = Inr ()"
    and mem: "member \<in> set (self_council_members self)"
    and fails: "isl (ainvoke env (clock lg) (base member)
                 (prompt (provide_feedback member (user_query state) (current_draft state)
                    (current_round state + 1))))"
  shows "\<exists>e lg'. council_debate self env state lg = (Inl e, lg')
           \<and> (\<exists>m\<in>set (self_council_members self).
                 ainvoke env (clock lg) (base m)
                   (prompt (provide_feedback m (user_query state) (current_draft state)
                      (current_round state + 1))) = Inl e)
           \<and> checkpoints lg' = checkpoints lg
           \<and> fanouts lg' = fanouts lg + 1
           \<and> last lg' = Gathered (map (\<lambda>m. (base m,
                 prompt (provide_feedback m (user_query state) (current_draft state)
                   (current_round state + 1)))) (self_council_members self))"
proof -
  let ?k = "current_round state + 1"
  let ?task = "\<lambda>m. provide_feedback m (user_query state) (current_draft state) ?k"
  let ?tasks = "map ?task (self_council_members self)"
  let ?cb = "self_ui_callback self"
  let ?status = "Message (py ''Council debate round '' @ str_int ?k @ py ''...'')"
  obtain lg1 where n1: "notify ?cb (py ''status'') ?status lg = (Inr (), lg1)"
    using st by (cases "notify ?cb (py ''status'') ?status lg") simp
  from notify_Inr [OF n1] have lg1: "lg1 = lg @ notices ?cb (py ''status'') ?status" .
  then have c: "clock lg1 = clock lg" by simp
  have "?task member \<in> set ?tasks" using mem by simp
  moreover have "isl (ainvoke env (clock lg1) (caller (?task member)) (prompt (?task member)))"
    using fails c by simp
  ultimately obtain e where
    g: "gather env ?tasks lg1 = (Inl e, lg1 @ [Gathered (map (\<lambda>c. (caller c, prompt c)) ?tasks)])"
    and ex: "\<exists>c\<in>set ?tasks. ainvoke env (clock lg1) (caller c) (prompt c) = Inl e"
    using gather_fails [of "?task member" ?tasks env lg1] by blast
  from n1 g have "council_debate self env state lg
      = (Inl e, lg1 @ [Gathered (map (\<lambda>c. (caller c, prompt c)) ?tasks)])"
    by (simp add: council_debate_def Let_def io_bind_def)
  moreover from ex c have "\<exists>m\<in>set (self_council_members self).
      ainvoke env (clock lg) (base m) (prompt (?task m)) = Inl e"
    by auto
  ultimately show ?thesis
    using lg1 by (auto simp: o_def notices_def checkpoints_def split: option.splits)
qed





section \<open>Runs\<close>

lemma next_node_simps:
  "next_node START state = Create_draft"
  "next_node Create_draft state = Council_debate"
  "next_node Council_debate state =
     (if current_round state \<ge> max_rounds state then Final_edit else Update_draft)"
  "next_node Update_draft state = Council_debate"
  "next_node Final_edit state = END"
  "next_node END state = END"
  by (simp_all add: next_node_def should_continue_debate_def py_def)

lemma next_node_without_callback [simp]:
  "next_node n (state\<lparr>ui_callback := c\<rparr>) = next_node n state"
  by (cases n) (simp_all add: next_node_simps)

lemma exec_END: "exec self env END state lg = (Inr state, lg)"
  by (simp add: exec.simps)

lemma exec_Inl:
  "n \<noteq> END \<Longrightarrow> node_action self env n state lg = (Inl e, lg') \<Longrightarrow>
   exec self env n state lg = (Inl e, lg')"
  by (simp add: exec.simps [of self env n state lg])

lemma exec_Inr:
  "n \<noteq> END \<Longrightarrow> node_action self env n state lg = (Inr u, lg') \<Longrightarrow>
   exec self env n state lg =
     exec self env (next_node n (apply_update state u)) (apply_update state u)
       (lg' @ [Checkpoint n (apply_update state u)])"
  by (simp add: exec.simps [of self env n state lg] Let_def)

lemma ahead_step:
  assumes "n \<noteq> END"
    and "current_round s' =
           (if n = Create_draft then 0
            else if n = Council_debate then current_round s + 1
            else current_round s)"
    and "max_rounds s' = max_rounds s"
  shows "debates_ahead n s =
           (if n = Council_debate then 1 else 0) + debates_ahead (next_node n s') s'"
    and "updates_ahead n s =
           (if n = Update_draft then 1 else 0) + updates_ahead (next_node n s') s'"
proof -
  have "debates_ahead n s =
           (if n = Council_debate then 1 else 0) + debates_ahead (next_node n s') s'
     \<and> updates_ahead n s =
           (if n = Update_draft then 1 else 0) + updates_ahead (next_node n s') s'"
  proof (cases n)
    case START
    with assms show ?thesis
      by (simp add: debates_ahead_def updates_ahead_def next_node_simps)
  next
    case Create_draft
    with assms show ?thesis
      by (simp add: debates_ahead_def updates_ahead_def next_node_simps)
  next
    case Council_debate
    with assms have r: "current_round s' = current_round s + 1" by simp
    show ?thesis
    proof (cases "max_rounds s \<le> current_round s + 1")
      case True
      with Council_debate r assms(3) show ?thesis
        by (simp add: debates_ahead_def updates_ahead_def next_node_simps)
    next
      case False
      then have "nat (max_rounds s - current_round s) = Suc (nat (max_rounds s - (current_round s + 1)))"
        and "1 \<le> nat (max_rounds s - (current_round s + 1))"
        by linarith+
      with False Council_debate r assms(3) show ?thesis
        by (simp add: debates_ahead_def updates_ahead_def next_node_simps)
    qed
  next
    case Update_draft
    with assms have r: "current_round s' = current_round s" by simp
    with Update_draft assms(3) show ?thesis
      by (simp add: debates_ahead_def updates_ahead_def next_node_simps)
  next
    case Final_edit
    with assms show ?thesis
      by (simp add: debates_ahead_def updates_ahead_def next_node_simps)
  next
    case END
    with assms show ?thesis by simp
  qed
  then show "debates_ahead n s =
           (if n = Council_debate then 1 else 0) + debates_ahead (next_node n s') s'"
    and "updates_ahead n s =
           (if n = Update_draft then 1 else 0) + updates_ahead (next_node n s') s'"
    by simp_all
qed

lemma exec_counts:
  "exec self env n state lg = (Inr final, lg') \<Longrightarrow>
   length (feedback_history final) = length (feedback_history state) + debates_ahead n state
   \<and> fanouts lg' = fanouts lg + debates_ahead n state
   \<and> stages_executed Update_draft lg' = stages_executed Update_draft lg + updates_ahead n state
   \<and> length (drafts final) =
       length (drafts state) + updates_ahead n state
         + (if n = START \<or> n = Create_draft then 1 else 0)"
proof (induction self env n state lg rule: exec.induct)
  case (1 self env n state lg)
  show ?case
  proof (cases "n = END")
    case True
    with "1.prems" show ?thesis
      by (simp add: exec_END debates_ahead_def updates_ahead_def)
  next
    case False
    obtain r lg1 where na: "node_action self env n state lg = (r, lg1)" by force
    show ?thesis
    proof (cases r)
      case (Inl e)
      with False na "1.prems" show ?thesis by (simp add: exec_Inl)
    next
      case (Inr u)
      let ?s = "apply_update state u"
      let ?n = "next_node n ?s"
      from False na Inr "1.prems"
      have ex: "exec self env ?n ?s (lg1 @ [Checkpoint n ?s]) = (Inr final, lg')"
        by (simp add: exec_Inr)
      from na Inr have na': "node_action self env n state lg = (Inr u, lg1)" by simp
      note IH = "1.IH" [OF False na' [symmetric] refl refl ex]
      note st = node_action_state [OF na']
      note ah = ahead_step [OF False st(3) st(4)]
      have nn: "?n \<noteq> START \<and> (?n = Create_draft \<longleftrightarrow> n = START)"
        by (cases n) (simp_all add: next_node_simps)
      have a: "length (feedback_history final)
          = length (feedback_history state) + debates_ahead n state"
        using IH st(2) ah(1) by simp
      have b: "fanouts lg' = fanouts lg + debates_ahead n state"
        using IH node_action_fanouts [OF na'] ah(1) by simp
      have c: "stages_executed Update_draft lg'
          = stages_executed Update_draft lg + updates_ahead n state"
        using IH node_action_stages [OF na', of Update_draft] ah(2) by simp
      have d: "length (drafts final) = length (drafts state) + updates_ahead n state
          + (if n = START \<or> n = Create_draft then 1 else 0)"
        using IH st(1) ah(2) nn by (cases n) simp_all
      from a b c d show ?thesis by simp
    qed
  qed
qed

lemma exec_returns:
  "never_fails env \<Longrightarrow> returns (self_ui_callback self) \<Longrightarrow>
   (n = Update_draft \<longrightarrow> feedback_history state \<noteq> []) \<Longrightarrow>
   \<exists>final lg'. exec self env n state lg = (Inr final, lg')"
proof (induction self env n state lg rule: exec.induct)
  case (1 self env n state lg)
  show ?case
  proof (cases "n = END")
    case True
    then show ?thesis by (simp add: exec_END)
  next
    case False
    from node_action_ok [OF "1.prems"(1,2,3)]
    obtain u lg1 where na: "node_action self env n state lg = (Inr u, lg1)" by blast
    let ?s = "apply_update state u"
    have "next_node n ?s = Update_draft \<longrightarrow> feedback_history ?s \<noteq> []"
    proof
      assume "next_node n ?s = Update_draft"
      then have "n = Council_debate"
        by (cases n) (simp_all add: next_node_simps split: if_splits)
      with node_action_state(2) [OF na] show "feedback_history ?s \<noteq> []" by auto
    qed
    from "1.IH" [OF False na [symmetric] refl refl "1.prems"(1,2) this]
    show ?thesis by (simp add: exec_Inr [OF False na])
  qed
qed

lemma exec_unroll:
  assumes "n \<noteq> END" and "exec self env n s lg = (Inr final, lg')"
  obtains s1 lg1 where
    "exec self env (next_node n s1) s1 lg1 = (Inr final, lg')"
    "length (drafts s1) =
       length (drafts s) + (if n = Create_draft \<or> n = Update_draft then 1 else 0)"
    "length (feedback_history s1) =
       length (feedback_history s) + (if n = Council_debate then 1 else 0)"
    "current_round s1 =
       (if n = Create_draft then 0
        else if n = Council_debate then current_round s + 1
        else current_round s)"
    "max_rounds s1 = max_rounds s"
    "history_lengths lg1 =
       history_lengths lg @ [(n, length (drafts s1), length (feedback_history s1))]"
    "notifications lg1 =
       notifications lg @ (if self_ui_callback self = None then [] else node_events n s)"
proof -
  obtain r lg0 where na: "node_action self env n s lg = (r, lg0)" by force
  show thesis
  proof (cases r)
    case (Inl e)
    with assms na show thesis by (simp add: exec_Inl)
  next
    case (Inr u)
    with na have na': "node_action self env n s lg = (Inr u, lg0)" by simp
    let ?s = "apply_update s u"
    show thesis
    proof (rule that [of ?s "lg0 @ [Checkpoint n ?s]"])
      show "exec self env (next_node n ?s) ?s (lg0 @ [Checkpoint n ?s]) = (Inr final, lg')"
        using assms by (simp add: exec_Inr [OF assms(1) na'])
      show "history_lengths (lg0 @ [Checkpoint n ?s]) =
          history_lengths lg @ [(n, length (drafts ?s), length (feedback_history ?s))]"
        by (simp add: node_action_history_lengths [OF na'])
      show "notifications (lg0 @ [Checkpoint n ?s]) =
          notifications lg @ (if self_ui_callback self = None then [] else node_events n s)"
        by (simp add: node_action_notifications [OF na'])
    qed (rule node_action_state [OF na'])+
  qed
qed

lemma two_round_run:
  assumes mr: "max_rounds s0 = 2"
    and ex: "exec self env Create_draft s0 lg0 = (Inr final, lg)"
  shows "history_lengths lg =
           history_lengths lg0 @
           [(Create_draft, length (drafts s0) + 1, length (feedback_history s0)),
            (Council_debate, length (drafts s0) + 1, length (feedback_history s0) + 1),
            (Update_draft, length (drafts s0) + 2, length (feedback_history s0) + 1),
            (Council_debate, length (drafts s0) + 2, length (feedback_history s0) + 2),
            (Final_edit, length (drafts s0) + 2, length (feedback_history s0) + 2)]"
    and "notifications lg =
           notifications lg0 @
           (if self_ui_callback self = None then []
            else [(py ''status'', None), (py ''draft_created'', None),
                  (py ''status'', None), (py ''feedback_round'', Some 1),
                  (py ''status'', None), (py ''draft_updated'', None),
                  (py ''status'', None), (py ''feedback_round'', Some 2),
                  (py ''status'', None), (py ''final_response'', None)])"
proof -
  from exec_unroll [OF _ ex] obtain s1 lg1 where
    e1: "exec self env (next_node Create_draft s1) s1 lg1 = (Inr final, lg)"
    and d1: "length (drafts s1) = length (drafts s0) + 1"
    and h1: "length (feedback_history s1) = length (feedback_history s0)"
    and r1: "current_round s1 = 0" and m1: "max_rounds s1 = 2"
    and l1: "history_lengths lg1 =
       history_lengths lg0 @ [(Create_draft, length (drafts s1), length (feedback_history s1))]"
    and n1: "notifications lg1 = notifications lg0 @
       (if self_ui_callback self = None then [] else node_events Create_draft s0)"
    using mr by auto
  from e1 have e1': "exec self env Council_debate s1 lg1 = (Inr final, lg)"
    by (simp add: next_node_simps)
  from exec_unroll [OF _ e1'] obtain s2 lg2 where
    e2: "exec self env (next_node Council_debate s2) s2 lg2 = (Inr final, lg)"
    and d2: "length (drafts s2) = length (drafts s1)"
    and h2: "length (feedback_history s2) = length (feedback_history s1) + 1"
    and r2: "current_round s2 = 1" and m2: "max_rounds s2 = 2"
    and l2: "history_lengths lg2 =
       history_lengths lg1 @ [(Council_debate, length (drafts s2), length (feedback_history s2))]"
    and n2: "notifications lg2 = notifications lg1 @
       (if self_ui_callback self = None then [] else node_events Council_debate s1)"
    using r1 m1 by auto
  from e2 r2 m2 have e2': "exec self env Update_draft s2 lg2 = (Inr final, lg)"
    by (simp add: next_node_simps)
  from exec_unroll [OF _ e2'] obtain s3 lg3 where
    e3: "exec self env (next_node Update_draft s3) s3 lg3 = (Inr final, lg)"
    and d3: "length (drafts s3) = length (drafts s2) + 1"
    and h3: "length (feedback_history s3) = length (feedback_history s2)"
    and r3: "current_round s3 = 1" and m3: "max_rounds s3 = 2"
    and l3: "history_lengths lg3 =
       history_lengths lg2 @ [(Update_draft, length (drafts s3), length (feedback_history s3))]"
    and n3: "notifications lg3 = notifications lg2 @
       (if self_ui_callback self = None then [] else node_events Update_draft s2)"
    using r2 m2 by auto
  from e3 have e3': "exec self env Council_debate s3 lg3 = (Inr final, lg)"
    by (simp add: next_node_simps)
  from exec_unroll [OF _ e3'] obtain s4 lg4 where
    e4: "exec self env (next_node Council_debate s4) s4 lg4 = (Inr final, lg)"
    and d4: "length (drafts s4) = length (drafts s3)"
    and h4: "length (feedback_history s4) = length (feedback_history s3) + 1"
    and r4: "current_round s4 = 2" and m4: "max_rounds s4 = 2"
    and l4: "history_lengths lg4 =
       history_lengths lg3 @ [(Council_debate, length (drafts s4), length (feedback_history s4))]"
    and n4: "notifications lg4 = notifications lg3 @
       (if self_ui_callback self = None then [] else node_events Council_debate s3)"
    using r3 m3 by auto
  from e4 r4 m4 have e4': "exec self env Final_edit s4 lg4 = (Inr final, lg)"
    by (simp add: next_node_simps)
  from exec_unroll [OF _ e4'] obtain s5 lg5 where
    e5: "exec self env (next_node Final_edit s5) s5 lg5 = (Inr final, lg)"
    and d5: "length (drafts s5) = length (drafts s4)"
    and h5: "length (feedback_history s5) = length (feedback_history s4)"
    and l5: "history_lengths lg5 =
       history_lengths lg4 @ [(Final_edit, length (drafts s5), length (feedback_history s5))]"
    and n5: "notifications lg5 = notifications lg4 @
       (if self_ui_callback self = None then [] else node_events Final_edit s4)"
    by simp blast
  from e5 have lg: "lg = lg5" by (simp add: next_node_simps exec_END)
  show "history_lengths lg =
           history_lengths lg0 @
           [(Create_draft, length (drafts s0) + 1, length (feedback_history s0)),
            (Council_debate, length (drafts s0) + 1, length (feedback_history s0) + 1),
            (Update_draft, length (drafts s0) + 2, length (feedback_history s0) + 1),
            (Council_debate, length (drafts s0) + 2, length (feedback_history s0) + 2),
            (Final_edit, length (drafts s0) + 2, length (feedback_history s0) + 2)]"
    unfolding lg l5 l4 l3 l2 l1 d5 d4 d3 d2 d1 h5 h4 h3 h2 h1 by simp
  show "notifications lg =
           notifications lg0 @
           (if self_ui_callback self = None then []
            else [(py ''status'', None), (py ''draft_created'', None),
                  (py ''status'', None), (py ''feedback_round'', Some 1),
                  (py ''status'', None), (py ''draft_updated'', None),
                  (py ''status'', None), (py ''feedback_round'', Some 2),
                  (py ''status'', None), (py ''final_response'', None)])"
    unfolding lg n5 n4 n3 n2 n1 by (simp add: node_events_def r1 r3)
qed

lemma exec_in_step:
  "exec self env n s lg = (r, lg') \<Longrightarrow>
   length (drafts s) = length (feedback_history s) + (if n = Council_debate then 1 else 0) \<Longrightarrow>
   list_all in_step (history_lengths lg) \<Longrightarrow>
   list_all in_step (history_lengths lg')"
proof (induction self env n s lg rule: exec.induct)
  case (1 self env n s lg)
  show ?case
  proof (cases "n = END")
    case True
    with "1.prems" show ?thesis by (simp add: exec_END)
  next
    case False
    obtain x lg1 where na: "node_action self env n s lg = (x, lg1)" by force
    show ?thesis
    proof (cases x)
      case (Inl e)
      with False na "1.prems" show ?thesis
        by (auto simp: exec_Inl node_action_history_lengths)
    next
      case (Inr u)
      with na have na': "node_action self env n s lg = (Inr u, lg1)" by simp
      let ?s = "apply_update s u"
      note st = node_action_state [OF na']
      from "1.prems"(1) have ex:
        "exec self env (next_node n ?s) ?s (lg1 @ [Checkpoint n ?s]) = (r, lg')"
        by (simp add: exec_Inr [OF False na'])
      have entry: "length (drafts ?s) =
          length (feedback_history ?s) + (if next_node n ?s = Council_debate then 1 else 0)"
        using st(1,2) "1.prems"(2) False by (cases n) (simp_all add: next_node_simps)
      have "in_step (n, length (drafts ?s), length (feedback_history ?s))"
        using st(1,2) "1.prems"(2) by (cases n) (simp_all add: in_step_def)
      with "1.prems"(3)
      have "list_all in_step (history_lengths (lg1 @ [Checkpoint n ?s]))"
        by (simp add: node_action_history_lengths [OF na'])
      from "1.IH" [OF False na' [symmetric] refl refl ex entry this] show ?thesis .
    qed
  qed
qed



lemma CouncilWorkflow_init_simps [simp]:
  "self_config (CouncilWorkflow_init config cb) = config"
  "self_ui_callback (CouncilWorkflow_init config cb) = cb"
  by (simp_all add: CouncilWorkflow_init_def)

lemma initial_state_simps [simp]:
  "user_query (initial_state self q) = q"
  "current_draft (initial_state self q) = []"
  "drafts (initial_state self q) = []"
  "feedback_history (initial_state self q) = []"
  "current_round (initial_state self q) = 0"
  "max_rounds (initial_state self q) = debate_rounds (self_config self)"
  "final_response (initial_state self q) = []"
  "ui_callback (initial_state self q) = self_ui_callback self"
  by (simp_all add: initial_state_def)

lemma workflow_ainvoke_exec:
  "workflow_ainvoke self env state = exec self env Create_draft state"
  by (simp add: workflow_ainvoke_def next_node_simps)

lemma workflow_ainvoke_returns:
  "never_fails env \<Longrightarrow> returns (self_ui_callback self) \<Longrightarrow>
   \<exists>final lg. workflow_ainvoke self env state [] = (Inr final, lg)"
  by (simp add: workflow_ainvoke_exec exec_returns)

lemma run_workflow_ainvoke:
  "run self env q lg =
     (map_sum id final_response (fst (workflow_ainvoke self env (initial_state self q) lg)),
      snd (workflow_ainvoke self env (initial_state self q) lg))"
  by (cases "workflow_ainvoke self env (initial_state self q) lg")
     (auto simp: run_def io_bind_def io_return_def split: sum.splits)

lemma reaches_exec:
  "reaches self env c c' \<Longrightarrow>
   exec self env (fst c) (fst (snd c)) (snd (snd c)) =
   exec self env (fst c') (fst (snd c')) (snd (snd c'))"
proof (induction rule: reaches.induct)
  case (here c)
  show ?case by simp
next
  case (step n state lg u lg' c)
  then show ?case by (simp add: exec_Inr)
qed

lemma reaches_last_checkpoint:
  "reaches self env c c' \<Longrightarrow>
   c' = c \<or> (checkpoints (snd (snd c')) \<noteq> [] \<and>
             snd (last (checkpoints (snd (snd c')))) = fst (snd c'))"
proof (induction rule: reaches.induct)
  case (here c)
  show ?case by simp
next
  case (step n state lg u lg' c)
  then show ?case by auto
qed

lemma reaches_rounds:
  "reaches self env c c' \<Longrightarrow>
   length (feedback_history (fst (snd c))) = fanouts (snd (snd c)) \<Longrightarrow>
   length (feedback_history (fst (snd c'))) = fanouts (snd (snd c'))"
proof (induction rule: reaches.induct)
  case (here c)
  then show ?case by simp
next
  case (step n state lg u lg' c)
  from step.hyps(2) step.prems
  have "length (feedback_history (apply_update state u))
      = fanouts (lg' @ [Checkpoint n (apply_update state u)])"
    by (simp add: node_action_state(2) node_action_fanouts)
  with step.IH show ?case by simp
qed


section \<open>The example\<close>

lemma never_fails_example [simp]: "never_fails example_env"
  by (simp add: never_fails_def example_env_def)

lemma example_run_returns:
  "returns cb \<Longrightarrow> \<exists>final lg. example_run config cb = (Inr final, lg)"
  unfolding example_run_def by (rule workflow_ainvoke_returns) simp_all

lemma example_history_lengths:
  "history_lengths (snd (example_run example_config None)) =
     [(Create_draft, 1, 0), (Council_debate, 1, 1), (Update_draft, 2, 1),
      (Council_debate, 2, 2), (Final_edit, 2, 2)]"
proof -
  from example_run_returns [of None example_config]
  obtain final lg where r: "example_run example_config None = (Inr final, lg)" by auto
  from two_round_run(1) [OF _ r [unfolded example_run_def workflow_ainvoke_exec]] r
  show ?thesis by (simp add: example_config_def)
qed

lemma example_reviewer_ids:
  "map (\<lambda>member. self_agent_id (base member))
       (self_council_members (CouncilWorkflow_init example_config cb))
   = [py ''council_member_0'', py ''council_member_1'']"
  by (simp add: configured_reviewer_ids example_config_def upt_rec str_int_def digits.simps py_def)

lemma example_completion_order:
  "completion_order (map (\<lambda>member. latency example_env 0 (base member))
     (self_council_members (CouncilWorkflow_init example_config None))) = [1, 0]"
proof -
  have "map (\<lambda>member. latency example_env 0 (base member))
     (self_council_members (CouncilWorkflow_init example_config None))
     = map (\<lambda>a. if a = py ''council_member_0'' then 2 else 1)
         (map (\<lambda>member. self_agent_id (base member))
            (self_council_members (CouncilWorkflow_init example_config None)))"
    by (simp add: example_env_def o_def)
  also have "\<dots> = [2, 1]"
    unfolding example_reviewer_ids by (simp add: py_def)
  finally show ?thesis by (simp add: completion_order_def upt_rec)
qed

lemma failing_env_draft:
  "\<not> isl (fst (create_initial_draft (CouncilWorkflow_init example_config None) failing_env
      state []))"
  by (simp add: create_initial_draft_def io_bind_def io_return_def notify_def await_def
        failing_env_def DraftAgent_create_initial_draft_def CouncilWorkflow_init_def
        DraftAgent_init_def BaseAgent_init_def py_def)

lemma example_after_draft_node:
  "\<exists>u lg. node_action (CouncilWorkflow_init example_config None) failing_env Create_draft
             (initial_state (CouncilWorkflow_init example_config None) example_query) []
           = (Inr u, lg)
         \<and> example_after_draft =
             (apply_update (initial_state (CouncilWorkflow_init example_config None) example_query) u,
              lg @ [Checkpoint Create_draft
                (apply_update (initial_state (CouncilWorkflow_init example_config None)
                   example_query) u)])"
proof -
  let ?W = "CouncilWorkflow_init example_config None"
  let ?s = "initial_state ?W example_query"
  obtain r lg where c: "create_initial_draft ?W failing_env ?s [] = (r, lg)" by force
  with failing_env_draft [of ?s] obtain u where r: "r = Inr u" by (cases r) simp_all
  from c r have "node_action ?W failing_env Create_draft ?s [] = (Inr u, lg)"
    by (simp add: node_action_def)
  moreover have "example_after_draft =
      (apply_update ?s u, lg @ [Checkpoint Create_draft (apply_update ?s u)])"
    using c r by (simp add: example_after_draft_def Let_def)
  ultimately show ?thesis by blast
qed

lemma example_reaches_debate:
  "reaches (CouncilWorkflow_init example_config None) failing_env
     (Create_draft, initial_state (CouncilWorkflow_init example_config None) example_query, [])
     (Council_debate, fst example_after_draft, snd example_after_draft)"
proof -
  let ?W = "CouncilWorkflow_init example_config None"
  let ?s = "initial_state ?W example_query"
  from example_after_draft_node obtain u lg where
    na: "node_action ?W failing_env Create_draft ?s [] = (Inr u, lg)"
    and e: "example_after_draft =
      (apply_update ?s u, lg @ [Checkpoint Create_draft (apply_update ?s u)])"
    by blast
  have "reaches ?W failing_env (Create_draft, ?s, [])
      (next_node Create_draft (apply_update ?s u), apply_update ?s u,
       lg @ [Checkpoint Create_draft (apply_update ?s u)])"
    by (rule reaches.step [OF _ na reaches.here]) simp
  then show ?thesis by (simp add: e next_node_simps)
qed

lemma example_after_draft_fanouts: "fanouts (snd example_after_draft) = 0"
proof -
  from example_after_draft_node obtain u lg where
    na: "node_action (CouncilWorkflow_init example_config None) failing_env Create_draft
           (initial_state (CouncilWorkflow_init example_config None) example_query) []
         = (Inr u, lg)"
    and e: "example_after_draft =
      (apply_update (initial_state (CouncilWorkflow_init example_config None) example_query) u,
       lg @ [Checkpoint Create_draft
         (apply_update (initial_state (CouncilWorkflow_init example_config None)
            example_query) u)])"
    by blast
  from node_action_fanouts [OF na] show ?thesis by (simp add: e)
qed

lemma example_second_reviewer:
  "self_council_members (CouncilWorkflow_init example_config None) ! 1
     \<in> set (self_council_members (CouncilWorkflow_init example_config None))"
  "self_agent_id (base (self_council_members (CouncilWorkflow_init example_config None) ! 1))
     = py ''council_member_1''"
  by (simp_all add: CouncilWorkflow_init_def example_config_def CouncilMember_init_def
        BaseAgent_init_def str_int_def digits.simps py_def)


section \<open>Rounds of critique (C1)\<close>




section \<open>The order of the feedback (C2)\<close>

text \<open>
  Claim C2.  Whenever a debate round completes, for any latencies of the replies and so for
  any order of completion, the list it appends to \<open>feedback_history\<close> is the feedback of
  the configured reviewers in their configured order, one entry each; it is the list the
  \<open>feedback_round\<close> event carries, and the last entry of the merged history, which is what
  the revision step reads.
\<close>

theorem feedback_in_configured_order:
  assumes "council_debate self env state lg = (Inr u, lg')"
  shows "u_feedback_history u = Some [configured_feedback self env state (clock lg)]
       \<and> map fb_agent_id (configured_feedback self env state (clock lg))
           = map (\<lambda>member. self_agent_id (base member)) (self_council_members self)
       \<and> last (feedback_history (apply_update state u))
           = configured_feedback self env state (clock lg)
       \<and> (self_ui_callback self \<noteq> None \<longrightarrow>
            last lg' = Notified (py ''feedback_round'')
              (Round (current_round state + 1) (configured_feedback self env state (clock lg))))"
proof (intro conjI impI)
  note r = council_debate_Inr [OF assms]
  show "u_feedback_history u = Some [configured_feedback self env state (clock lg)]"
    by (simp add: r(1) no_update_def)
  show "map fb_agent_id (configured_feedback self env state (clock lg))
      = map (\<lambda>member. self_agent_id (base member)) (self_council_members self)"
    by (simp add: configured_feedback_def o_def)
  show "last (feedback_history (apply_update state u))
      = configured_feedback self env state (clock lg)"
    by (simp add: r(1) no_update_def apply_update_def)
  assume "self_ui_callback self \<noteq> None"
  then show "last lg' = Notified (py ''feedback_round'')
      (Round (current_round state + 1) (configured_feedback self env state (clock lg)))"
    by (auto simp: r(2) notices_def)
qed

theorem feedback_in_configured_order_witness:
  "completion_order (map (\<lambda>member. latency example_env 0 (base member))
     (self_council_members (CouncilWorkflow_init example_config None))) = [1, 0]
   \<and> \<not> isl (fst (council_debate (CouncilWorkflow_init example_config None) example_env
           (initial_state (CouncilWorkflow_init example_config None) example_query) []))
   \<and> map (map fb_agent_id) (the (u_feedback_history (projr (fst
         (council_debate (CouncilWorkflow_init example_config None) example_env
           (initial_state (CouncilWorkflow_init example_config None) example_query) [])))))
     = [[py ''council_member_0'', py ''council_member_1'']]"
proof -
  let ?W = "CouncilWorkflow_init example_config None"
  let ?s = "initial_state ?W example_query"
  from node_action_ok [of example_env ?W Council_debate ?s "[]"]
  obtain u lg' where r: "council_debate ?W example_env ?s [] = (Inr u, lg')"
    by (auto simp: node_action_def)
  from feedback_in_configured_order [OF r] r example_reviewer_ids [of None]
  have "map (map fb_agent_id) (the (u_feedback_history (projr (fst
         (council_debate ?W example_env ?s [])))))
     = [[py ''council_member_0'', py ''council_member_1'']]"
    by simp
  with r example_completion_order show ?thesis by simp
qed


section \<open>Content and summary of a reply (C3)\<close>

text \<open>
  Claim C3 as stated fails: a reply whose last marker is followed by white space only
  contains the marker and has an empty summary.
\<close>

theorem split_summary_empty_summary_counterexample:
  "contains summary_marker (py ''Answer. Summary: '')
   \<and> split_summary (py ''Answer. Summary: '') = (py ''Answer.'', [])"
  by (simp add: split_summary_def contains_def rsplit1_def summary_marker_def py_def
        strip_def isspace_def)

text \<open>
  Claim C3, as the code has it.  A reply contains the marker when the marker is a substring
  of it.  A reply that contains \<open>Summary:\<close> is cut at the last
  occurrence of the marker (no occurrence starts further right): the content is the part
  before it and the summary the part after it, each stripped.  A reply without the marker
  gives the stripped reply and the empty summary.  In both cases content and summary have no
  white space at either end.  The summary is the stripped rest, which may be empty.  The
  result of \<open>generate_response\<close> takes the content as it is and records the summary under
  the key \<open>summary\<close> only when it is not empty.
\<close>

theorem split_summary_last_marker:
  "(contains summary_marker text \<longleftrightarrow> (\<exists>ps ss. text = ps @ summary_marker @ ss))
   \<and> (contains summary_marker text \<longrightarrow>
      (\<exists>main rest. text = main @ summary_marker @ rest
         \<and> \<not> contains summary_marker (tl (summary_marker @ rest))
         \<and> split_summary text = (strip main, strip rest)))
   \<and> (\<not> contains summary_marker text \<longrightarrow> split_summary text = (strip text, []))
   \<and> trimmed (fst (split_summary text)) \<and> trimmed (snd (split_summary text))
   \<and> (ai_content response = text \<longrightarrow>
        content (resume (generate_response self messages) response) = fst (split_summary text)
        \<and> metadata (resume (generate_response self messages) response) (py ''summary'') =
            (if snd (split_summary text) = [] then None
             else Some (Text (snd (split_summary text)))))"
proof (intro conjI impI)
  show "contains summary_marker text \<longleftrightarrow> (\<exists>ps ss. text = ps @ summary_marker @ ss)"
    by (rule contains_iff)
next
  assume "contains summary_marker text"
  then show "\<exists>main rest. text = main @ summary_marker @ rest
         \<and> \<not> contains summary_marker (tl (summary_marker @ rest))
         \<and> split_summary text = (strip main, strip rest)"
    by (rule split_summary_marker)
next
  assume "\<not> contains summary_marker text"
  then show "split_summary text = (strip text, [])" by (simp add: split_summary_def)
next
  show "trimmed (fst (split_summary text))"
    by (simp add: split_summary_def Let_def trimmed_strip)
next
  show "trimmed (snd (split_summary text))"
    by (simp add: split_summary_def Let_def trimmed_strip trimmed_Nil)
next
  assume "ai_content response = text"
  then show "content (resume (generate_response self messages) response)
      = fst (split_summary text)"
    by (simp add: generate_response_def Let_def split: prod.splits option.splits)
next
  assume "ai_content response = text"
  then show "metadata (resume (generate_response self messages) response) (py ''summary'') =
      (if snd (split_summary text) = [] then None else Some (Text (snd (split_summary text))))"
    by (simp add: generate_response_def Let_def py_def split: prod.splits option.splits)
qed

theorem split_summary_last_marker_witness:
  "contains summary_marker (py ''Summary: a Summary: b'')
   \<and> split_summary (py ''Summary: a Summary: b'') = (py ''Summary: a'', py ''b'')
   \<and> \<not> contains summary_marker (py '' plain reply '')
   \<and> split_summary (py '' plain reply '') = (strip (py '' plain reply ''), [])
   \<and> trimmed (py ''Summary: a'') \<and> trimmed (py ''b'')
   \<and> content (resume (generate_response (DraftAgent_init (py ''gpt-4o-mini'') (7 / 10)) [])
        \<lparr>ai_content = py ''Summary: a Summary: b'', usage_metadata = None\<rparr>) = py ''Summary: a''"
  using split_summary_last_marker [of "py ''Summary: a Summary: b''"
      "\<lparr>ai_content = py ''Summary: a Summary: b'', usage_metadata = None\<rparr>"
      "DraftAgent_init (py ''gpt-4o-mini'') (7 / 10)" "[]"]
    split_summary_last_marker [of "py '' plain reply ''"]
  by (simp add: split_summary_def contains_def rsplit1_def summary_marker_def py_def
        strip_def isspace_def)


section \<open>Drafts and rounds of feedback (C4)\<close>

text \<open>
  Claim C4 as stated fails: with two rounds and two reviewers, the state after the first
  debate round (the second state of the run, before the first update and long before the
  final edit) has one draft and one round of feedback.
\<close>

theorem drafts_not_ahead_after_debate_counterexample:
  "history_lengths (snd (example_run example_config None)) ! 1 = (Council_debate, 1, 1)
   \<and> (1::nat) \<noteq> 1 + 1"
  by (simp add: example_history_lengths)

text \<open>
  Claim C4, as the code has it.  In every state a run goes through, complete or not:
  right after the initial draft and right after each draft update, \<open>drafts\<close> is one longer
  than \<open>feedback_history\<close>; right after each debate round, and so when the next update or
  the final edit starts, and after the final edit, the two have the same length.
\<close>

theorem drafts_one_ahead_between_rounds:
  assumes "workflow_ainvoke self env (initial_state self q) [] = (r, lg)"
  shows "\<forall>(n, s) \<in> set (checkpoints lg).
           if n = Create_draft \<or> n = Update_draft
           then length (drafts s) = 1 + length (feedback_history s)
           else length (drafts s) = length (feedback_history s)"
proof -
  from exec_in_step [OF assms [unfolded workflow_ainvoke_exec]]
  have "list_all in_step (history_lengths lg)" by simp
  then show ?thesis
    by (auto simp: list_all_iff history_lengths_def in_step_def split: if_splits)
qed

theorem drafts_one_ahead_between_rounds_witness:
  "history_lengths (snd (example_run example_config None)) =
     [(Create_draft, 1, 0), (Council_debate, 1, 1), (Update_draft, 2, 1),
      (Council_debate, 2, 2), (Final_edit, 2, 2)]
   \<and> list_all in_step (history_lengths (snd (example_run example_config None)))"
proof -
  have "example_run example_config None =
      (fst (example_run example_config None), snd (example_run example_config None))"
    by simp
  from drafts_one_ahead_between_rounds [OF this [unfolded example_run_def], folded example_run_def]
  have "list_all in_step (history_lengths (snd (example_run example_config None)))"
    by (auto simp: list_all_iff history_lengths_def in_step_def)
  with example_history_lengths show ?thesis by simp
qed


section \<open>Draft updates (C5)\<close>




section \<open>A failing reviewer (C6)\<close>

text \<open>
  Claim C6.  Let a run have reached a debate round, in state \<open>state\<close> with log \<open>lg\<close>, let the
  status notification of the round return, and let the call of a reviewer fail.  Then the
  run fails, and so does \<open>run\<close>, with the exception of a failing reviewer call of this
  round, unchanged: the given one when no other reviewer fails.  Nothing is recorded for
  the round: the recorded states are those before it, the last of them is \<open>state\<close>, whose
  \<open>feedback_history\<close> holds the earlier rounds only, and the fan-out is the last entry of
  the log, so no feedback event and no revision follow it.
\<close>

theorem failing_reviewer_fails_run:
  assumes reach: "reaches self env (Create_draft, initial_state self q, [])
                    (Council_debate, state, lg)"
    and st: "fst (notify (self_ui_callback self) (py ''status'')
                 (Message (py ''Council debate round '' @ str_int (current_round state + 1)
                    @ py ''...'')) lg) = Inr ()"
    and mem: "member \<in> set (self_council_members self)"
    and fails: "ainvoke env (clock lg) (base member)
                 (prompt (provide_feedback member (user_query state) (current_draft state)
                    (current_round state + 1))) = Inl e"
  shows "\<exists>e' lg'.
           workflow_ainvoke self env (initial_state self q) [] = (Inl e', lg')
         \<and> run self env q [] = (Inl e', lg')
         \<and> (\<exists>m\<in>set (self_council_members self).
               ainvoke env (clock lg) (base m)
                 (prompt (provide_feedback m (user_query state) (current_draft state)
                    (current_round state + 1))) = Inl e')
         \<and> ((\<forall>m\<in>set (self_council_members self).
                isl (ainvoke env (clock lg) (base m)
                  (prompt (provide_feedback m (user_query state) (current_draft state)
                     (current_round state + 1)))) \<longrightarrow> m = member) \<longrightarrow> e' = e)
         \<and> checkpoints lg' = checkpoints lg
         \<and> snd (last (checkpoints lg')) = state
         \<and> length (feedback_history state) = fanouts lg
         \<and> fanouts lg' = fanouts lg + 1
         \<and> last lg' = Gathered (map (\<lambda>m. (base m,
               prompt (provide_feedback m (user_query state) (current_draft state)
                 (current_round state + 1)))) (self_council_members self))"
proof -
  let ?p = "\<lambda>m. prompt (provide_feedback m (user_query state) (current_draft state)
                    (current_round state + 1))"
  from fails have "isl (ainvoke env (clock lg) (base member) (?p member))" by simp
  from council_debate_reviewer_fails [OF st mem this]
  obtain e' lg' where cd: "council_debate self env state lg = (Inl e', lg')"
    and m: "\<exists>m\<in>set (self_council_members self). ainvoke env (clock lg) (base m) (?p m) = Inl e'"
    and cp: "checkpoints lg' = checkpoints lg"
    and fo: "fanouts lg' = fanouts lg + 1"
    and la: "last lg' = Gathered (map (\<lambda>m. (base m, ?p m)) (self_council_members self))"
    by blast
  from cd have "exec self env Council_debate state lg = (Inl e', lg')"
    by (simp add: exec_Inl node_action_def)
  with reaches_exec [OF reach]
  have wa: "workflow_ainvoke self env (initial_state self q) [] = (Inl e', lg')"
    by (simp add: workflow_ainvoke_exec)
  then have rn: "run self env q [] = (Inl e', lg')"
    by (simp add: run_workflow_ainvoke)
  from reaches_last_checkpoint [OF reach] cp
  have ls: "snd (last (checkpoints lg')) = state" by simp
  from reaches_rounds [OF reach] have fh: "length (feedback_history state) = fanouts lg" by simp
  have only: "(\<forall>m\<in>set (self_council_members self).
      isl (ainvoke env (clock lg) (base m) (?p m)) \<longrightarrow> m = member) \<longrightarrow> e' = e"
  proof
    assume a: "\<forall>m\<in>set (self_council_members self).
      isl (ainvoke env (clock lg) (base m) (?p m)) \<longrightarrow> m = member"
    from m obtain m' where "m' \<in> set (self_council_members self)"
      and e': "ainvoke env (clock lg) (base m') (?p m') = Inl e'" by blast
    with a have "m' = member" by auto
    with e' fails show "e' = e" by simp
  qed
  from wa rn m only cp ls fh fo la show ?thesis by blast
qed

theorem failing_reviewer_fails_run_witness:
  "reaches (CouncilWorkflow_init example_config None) failing_env
     (Create_draft, initial_state (CouncilWorkflow_init example_config None) example_query, [])
     (Council_debate, fst example_after_draft, snd example_after_draft)
   \<and> self_council_members (CouncilWorkflow_init example_config None) ! 1
       \<in> set (self_council_members (CouncilWorkflow_init example_config None))
   \<and> ainvoke failing_env (clock (snd example_after_draft))
        (base (self_council_members (CouncilWorkflow_init example_config None) ! 1))
        (prompt (provide_feedback
           (self_council_members (CouncilWorkflow_init example_config None) ! 1)
           (user_query (fst example_after_draft)) (current_draft (fst example_after_draft))
           (current_round (fst example_after_draft) + 1))) = Inl rate_limit
   \<and> fst (run (CouncilWorkflow_init example_config None) failing_env example_query [])
       = Inl rate_limit
   \<and> checkpoints (snd (run (CouncilWorkflow_init example_config None) failing_env
         example_query [])) = checkpoints (snd example_after_draft)
   \<and> length (feedback_history (fst example_after_draft)) = 0"
proof -
  let ?W = "CouncilWorkflow_init example_config None"
  let ?m = "self_council_members ?W ! 1"
  let ?s = "fst example_after_draft" and ?lg = "snd example_after_draft"
  let ?p = "\<lambda>m. prompt (provide_feedback m (user_query ?s) (current_draft ?s)
     (current_round ?s + 1))"
  have st: "fst (notify (self_ui_callback ?W) (py ''status'')
      (Message (py ''Council debate round '' @ str_int (current_round ?s + 1) @ py ''...''))
      ?lg) = Inr ()"
    by (simp add: notify_def io_return_def)
  have fails: "ainvoke failing_env (clock ?lg) (base ?m) (?p ?m) = Inl rate_limit"
    using example_second_reviewer(2) by (simp add: failing_env_def)
  from failing_reviewer_fails_run [OF example_reaches_debate st example_second_reviewer(1) fails]
  obtain e' lg' where rn: "run ?W failing_env example_query [] = (Inl e', lg')"
    and m: "\<exists>m\<in>set (self_council_members ?W).
       ainvoke failing_env (clock ?lg) (base m) (?p m) = Inl e'"
    and cp: "checkpoints lg' = checkpoints ?lg"
    and fh: "length (feedback_history ?s) = fanouts ?lg"
    by blast
  from m have e': "e' = rate_limit" by (auto simp: failing_env_def split: if_splits)
  with rn e' cp fh fails example_after_draft_fanouts example_reaches_debate example_second_reviewer(1)
  show ?thesis by simp
qed


section \<open>The events of two rounds (C7)\<close>

text \<open>
  Claim C7.  With \<open>debate_rounds = 2\<close> and a callback, every run that returns has emitted
  exactly the ten events status, draft_created, status, feedback_round(1), status,
  draft_updated, status, feedback_round(2), status, final_response, with two fan-outs and
  one update.  This holds for any number of reviewers; the witness has two.
\<close>

theorem two_rounds_event_sequence:
  assumes "debate_rounds config = 2"
    and "workflow_ainvoke (CouncilWorkflow_init config (Some cb)) env
           (initial_state (CouncilWorkflow_init config (Some cb)) q) [] = (Inr final, lg)"
  shows "notifications lg =
           [(py ''status'', None), (py ''draft_created'', None),
            (py ''status'', None), (py ''feedback_round'', Some 1),
            (py ''status'', None), (py ''draft_updated'', None),
            (py ''status'', None), (py ''feedback_round'', Some 2),
            (py ''status'', None), (py ''final_response'', None)]
       \<and> length (notifications lg) = 10
       \<and> fanouts lg = 2
       \<and> stages_executed Update_draft lg = 1"
proof -
  note ex = assms(2) [unfolded workflow_ainvoke_exec]
  from two_round_run(2) [OF _ ex] assms(1)
  have "notifications lg =
           [(py ''status'', None), (py ''draft_created'', None),
            (py ''status'', None), (py ''feedback_round'', Some 1),
            (py ''status'', None), (py ''draft_updated'', None),
            (py ''status'', None), (py ''feedback_round'', Some 2),
            (py ''status'', None), (py ''final_response'', None)]"
    by simp
  moreover from exec_counts [OF ex] assms(1)
  have "fanouts lg = 2" "stages_executed Update_draft lg = 1"
    by (simp_all add: debates_ahead_def updates_ahead_def)
  ultimately show ?thesis by simp
qed

theorem two_rounds_event_sequence_witness:
  "debate_rounds example_config = 2
   \<and> length (council_members example_config) = 2
   \<and> \<not> isl (fst (example_run example_config (Some quiet_callback)))
   \<and> notifications (snd (example_run example_config (Some quiet_callback))) =
           [(py ''status'', None), (py ''draft_created'', None),
            (py ''status'', None), (py ''feedback_round'', Some 1),
            (py ''status'', None), (py ''draft_updated'', None),
            (py ''status'', None), (py ''feedback_round'', Some 2),
            (py ''status'', None), (py ''final_response'', None)]"
proof -
  from example_run_returns [of "Some quiet_callback" example_config]
  obtain final lg where r: "example_run example_config (Some quiet_callback) = (Inr final, lg)"
    by auto
  have c: "debate_rounds example_config = 2" by (simp add: example_config_def)
  from two_rounds_event_sequence [OF c r [unfolded example_run_def]] r c
  show ?thesis by (simp add: example_config_def)
qed


section \<open>Running without a callback (C8)\<close>





section \<open>The result of an agent (C9)\<close>





section \<open>The prompt of the editor (C10)\<close>

text \<open>
  Claim C10.  The call the editor makes does not depend on \<open>debate_history\<close>.  So two states
  that agree on \<open>user_query\<close> and \<open>current_draft\<close> give the same result of \<open>final_edit\<close>
  (the same final response or the same exception) whatever their \<open>feedback_history\<close>,
  when the provider is asked at the same point of the run.
\<close>

theorem editor_prompt_ignores_feedback_history:
  assumes "user_query s1 = user_query s2" and "current_draft s1 = current_draft s2"
    and "clock lg1 = clock lg2"
  shows "edit_final_response editor (user_query s1) (current_draft s1) (feedback_history s1) =
         edit_final_response editor (user_query s2) (current_draft s2) (feedback_history s2)
       \<and> fst (final_edit self env s1 lg1) = fst (final_edit self env s2 lg2)"
proof
  show "edit_final_response editor (user_query s1) (current_draft s1) (feedback_history s1) =
        edit_final_response editor (user_query s2) (current_draft s2) (feedback_history s2)"
    using assms(1,2) by (simp add: edit_final_response_def)
  have e: "edit_final_response (self_editor_agent self) (user_query s1) (current_draft s1)
             (feedback_history s1) =
           edit_final_response (self_editor_agent self) (user_query s2) (current_draft s2)
             (feedback_history s2)"
    using assms(1,2) by (simp add: edit_final_response_def)
  show "fst (final_edit self env s1 lg1) = fst (final_edit self env s2 lg2)"
    unfolding final_edit_def e
    by (auto simp: io_bind_def io_return_def notify_def await_def assms(3)
          split: prod.splits sum.splits option.splits)
qed

theorem editor_prompt_ignores_feedback_history_witness:
  "feedback_history (initial_state (CouncilWorkflow_init example_config None) example_query)
     \<noteq> feedback_history
         ((initial_state (CouncilWorkflow_init example_config None) example_query)
            \<lparr>feedback_history := [[]]\<rparr>)
   \<and> fst (final_edit (CouncilWorkflow_init example_config None) example_env
          (initial_state (CouncilWorkflow_init example_config None) example_query) [])
     = fst (final_edit (CouncilWorkflow_init example_config None) example_env
          ((initial_state (CouncilWorkflow_init example_config None) example_query)
             \<lparr>feedback_history := [[]]\<rparr>) [])"
  using editor_prompt_ignores_feedback_history
    [of "initial_state (CouncilWorkflow_init example_config None) example_query"
        "(initial_state (CouncilWorkflow_init example_config None) example_query)
            \<lparr>feedback_history := [[]]\<rparr>"
        "[]" "[]" _ "CouncilWorkflow_init example_config None" example_env]
  by (simp add: initial_state_def)

end
